theory Spec2Isabelle
  imports Complex_Main "HOL-Library.Word" "HOL-Library.Multiset"
begin

section \<open>Data model\<close>

text \<open>
  A shallow embedding of the SAM 2 segmentation service
  (\<^verbatim>\<open>sam2_service/sam2_predictor.py\<close> and \<^verbatim>\<open>sam2_service/main.py\<close>).

  A mask is a two-dimensional boolean array, kept as its list of rows. An image is a
  height x width array of RGB bytes. Quality scores are Python floats; the code only
  compares and sorts them, so they are modelled by rationals (no NaN). The IoU of two masks
  is a quotient of two pixel counts that the code compares with the literal 0.6: the model
  computes the quotient exactly. For counts below \<open>2 ^ 50\<close> the double-precision quotient
  exceeds the double nearest to 0.6 exactly when the exact quotient exceeds 6/10, since a
  quotient of such counts other than 3/5 differs from 3/5 by more than the rounding error.
\<close>

type_synonym byte = "8 word"
type_synonym mask = "bool list list"
type_synonym image = "(byte \<times> byte \<times> byte) list list"

text \<open>One entry of the automatic mask generator's output (the two keys the code reads).\<close>

record mask_data =
  segmentation :: mask
  predicted_iou :: rat

text \<open>Python exceptions, and \<^verbatim>\<open>str(e)\<close> as the handlers use it.\<close>

datatype exn =
    HTTPException nat string
  | ValueError string
  | RuntimeError string
  | ImportError string
  | OtherError string

definition digit_char :: "nat \<Rightarrow> char" where
  "digit_char d = ''0123456789'' ! d"

fun show_nat :: "nat \<Rightarrow> string" where
  "show_nat n = (if n < 10 then [digit_char n] else show_nat (n div 10) @ [digit_char (n mod 10)])"

declare show_nat.simps [simp del]

text \<open>Starlette's \<^verbatim>\<open>HTTPException.__str__\<close> prints the status code, a colon and the detail.\<close>

fun str_exn :: "exn \<Rightarrow> string" where
  "str_exn (HTTPException code detail) = show_nat code @ '': '' @ detail"
| "str_exn (ValueError m) = m"
| "str_exn (RuntimeError m) = m"
| "str_exn (ImportError m) = m"
| "str_exn (OtherError m) = m"

text \<open>The predictor object: \<^verbatim>\<open>self.model\<close> and \<^verbatim>\<open>self.predictor\<close> are \<^verbatim>\<open>None\<close> until loaded.\<close>

datatype sam2_model = SAM2Model string string

datatype image_predictor = SAM2ImagePredictor sam2_model

record SAM2Predictor =
  model_size :: string
  device :: string
  model :: "sam2_model option"
  predictor :: "image_predictor option"

text \<open>The model's prompts, and the calls made to the model, in order.\<close>

datatype prompt = PointPrompt "int list list" | BoxPrompt "int list"

datatype model_call = Generate image | SetImage image | Predict prompt bool

record seg_result =
  masks :: "mask list"
  scores :: "rat list"

text \<open>
  The collaborators outside the repository: the SAM 2 package, PIL, \<^verbatim>\<open>json\<close>,
  \<^verbatim>\<open>requests\<close> and the file system. Each is a function that returns its value or the
  exception it raises.
\<close>

record env =
  cuda_available :: bool
  mkdir_models :: "exn option"
  sam2_installed :: bool
  download_model :: "string \<Rightarrow> string \<Rightarrow> exn + string"
  build_sam2 :: "string \<Rightarrow> string \<Rightarrow> string \<Rightarrow> exn + sam2_model"
  new_image_predictor :: "sam2_model \<Rightarrow> exn + image_predictor"
  image_open :: "byte list \<Rightarrow> exn + image"
  json_loads :: "string \<Rightarrow> exn + int list list"
  requests_get :: "string \<Rightarrow> exn + byte list"
  generate :: "image \<Rightarrow> exn + mask_data list"
  set_image :: "image \<Rightarrow> exn + unit"
  predict :: "image \<Rightarrow> prompt \<Rightarrow> bool \<Rightarrow> exn + (mask list \<times> rat list)"
  png_save :: "byte list list \<Rightarrow> exn + byte list"

section \<open>The predictor: \<^verbatim>\<open>sam2_predictor.py\<close>\<close>

subsection \<open>Loading\<close>

definition model_configs :: "string \<Rightarrow> (string \<times> string \<times> string) option" where
  "model_configs sz =
     (if sz = ''tiny'' then Some (''sam2_hiera_t.yaml'', ''sam2_hiera_tiny.pt'',
        ''https://dl.fbaipublicfiles.com/segment_anything_2/072824/sam2_hiera_tiny.pt'')
      else if sz = ''small'' then Some (''sam2_hiera_s.yaml'', ''sam2.1_hiera_small.pt'',
        ''https://dl.fbaipublicfiles.com/segment_anything_2/092824/sam2.1_hiera_small.pt'')
      else if sz = ''base_plus'' then Some (''sam2_hiera_b+.yaml'', ''sam2.1_hiera_base_plus.pt'',
        ''https://dl.fbaipublicfiles.com/segment_anything_2/092824/sam2.1_hiera_base_plus.pt'')
      else if sz = ''large'' then Some (''sam2_hiera_l.yaml'', ''sam2.1_hiera_large.pt'',
        ''https://dl.fbaipublicfiles.com/segment_anything_2/092824/sam2.1_hiera_large.pt'')
      else None)"

text \<open>\<^verbatim>\<open>SAM2Predictor.__init__\<close>, with the default size \<^verbatim>\<open>"tiny"\<close> at its call sites.\<close>

definition init_predictor :: "env \<Rightarrow> string \<Rightarrow> exn + SAM2Predictor" where
  "init_predictor E sz =
     (case mkdir_models E of
        Some e \<Rightarrow> Inl e
      | None \<Rightarrow> Inr \<lparr>model_size = sz,
                     device = (if cuda_available E then ''cuda'' else ''cpu''),
                     model = None, predictor = None\<rparr>)"

text \<open>
  \<^verbatim>\<open>load_model\<close> mutates the object and may raise: the result is the exception, if any,
  and the object as the call leaves it.
\<close>

definition load_model :: "env \<Rightarrow> SAM2Predictor \<Rightarrow> exn option \<times> SAM2Predictor" where
  "load_model E self =
     (if \<not> sam2_installed E then (Some (ImportError ''SAM 2 package not found''), self)
      else case model_configs (model_size self) of
        None \<Rightarrow> (Some (ValueError (''Invalid model size: '' @ model_size self)), self)
      | Some (config, checkpoint, url) \<Rightarrow>
          (case download_model E url checkpoint of
             Inl e \<Rightarrow> (Some e, self)
           | Inr checkpoint_path \<Rightarrow>
               (case build_sam2 E config checkpoint_path (device self) of
                  Inl e \<Rightarrow> (Some e, self)
                | Inr m \<Rightarrow>
                    (case new_image_predictor E m of
                       Inl e \<Rightarrow> (Some e, self\<lparr>model := Some m\<rparr>)
                     | Inr p \<Rightarrow> (None, self\<lparr>model := Some m, predictor := Some p\<rparr>)))))"

subsection \<open>Mask overlap\<close>

definition logical_and :: "mask \<Rightarrow> mask \<Rightarrow> mask" where
  "logical_and m1 m2 = map2 (map2 (\<and>)) m1 m2"

definition logical_or :: "mask \<Rightarrow> mask \<Rightarrow> mask" where
  "logical_or m1 m2 = map2 (map2 (\<or>)) m1 m2"

text \<open>\<^verbatim>\<open>np.sum\<close> of a boolean array: the number of true pixels.\<close>

definition np_sum :: "mask \<Rightarrow> nat" where
  "np_sum m = length (filter id (concat m))"

definition shape :: "'a list list \<Rightarrow> nat list" where
  "shape m = map length m"

text \<open>
  \<^verbatim>\<open>_calculate_mask_iou\<close>. The element-wise operations raise on arrays of different shapes,
  and the \<^verbatim>\<open>except\<close> branch returns 0.0; the masks of one generator run all have the
  shape of the image (NumPy's broadcasting of unequal shapes is not modelled).
\<close>

definition calculate_mask_iou :: "mask \<Rightarrow> mask \<Rightarrow> rat" where
  "calculate_mask_iou mask1 mask2 =
     (if shape mask1 \<noteq> shape mask2 then 0
      else let intersection = np_sum (logical_and mask1 mask2);
               union = np_sum (logical_or mask1 mask2)
           in if union = 0 then 0 else of_nat intersection / of_nat union)"

definition overlap_threshold :: rat where
  "overlap_threshold = 6 / 10"

text \<open>
  Python's \<^verbatim>\<open>sorted(xs, key=k, reverse=True)\<close> and \<^verbatim>\<open>xs.sort(key=k, reverse=True)\<close>:
  CPython reverses the list, sorts it with its stable ascending sort, and reverses the result.
\<close>

definition py_sorted_reverse :: "('a \<Rightarrow> rat) \<Rightarrow> 'a list \<Rightarrow> 'a list" where
  "py_sorted_reverse key xs = rev (sort_key key (rev xs))"

text \<open>The inner loop of \<^verbatim>\<open>_filter_overlapping_masks\<close>, with its \<^verbatim>\<open>break\<close>.\<close>

fun is_overlapping :: "mask \<Rightarrow> mask_data list \<Rightarrow> bool" where
  "is_overlapping current_segmentation [] = False"
| "is_overlapping current_segmentation (selected_mask # rest) =
     (if calculate_mask_iou current_segmentation (segmentation selected_mask) > overlap_threshold
      then True
      else is_overlapping current_segmentation rest)"

text \<open>The outer loop: \<open>filtered_masks\<close> is the accumulator, extended at its end.\<close>

fun filter_loop :: "mask_data list \<Rightarrow> mask_data list \<Rightarrow> mask_data list" where
  "filter_loop filtered_masks [] = filtered_masks"
| "filter_loop filtered_masks (current_mask # rest) =
     (if \<not> is_overlapping (segmentation current_mask) filtered_masks
      then filter_loop (filtered_masks @ [current_mask]) rest
      else filter_loop filtered_masks rest)"

definition filter_overlapping_masks :: "mask_data list \<Rightarrow> mask_data list" where
  "filter_overlapping_masks ms =
     (if length ms \<le> 1 then ms
      else filter_loop [] (py_sorted_reverse predicted_iou ms))"

subsection \<open>The three segmentation modes\<close>

definition max_masks :: nat where
  "max_masks = 25"

text \<open>
  \<^verbatim>\<open>segment_everything\<close>: the readiness guard, the generator, the overlap filter, the second
  sort, the truncation, and the split into masks and scores.
\<close>

definition segment_everything ::
  "env \<Rightarrow> SAM2Predictor \<Rightarrow> image \<Rightarrow> (exn + seg_result) \<times> model_call list" where
  "segment_everything E self img =
     (if predictor self = None then (Inl (RuntimeError ''Model not loaded''), [])
      else case generate E img of
        Inl e \<Rightarrow> (Inl e, [Generate img])
      | Inr ms \<Rightarrow>
          (let filtered_masks = filter_overlapping_masks ms;
               filtered_masks = py_sorted_reverse predicted_iou filtered_masks;
               filtered_masks = take max_masks filtered_masks
           in (Inr \<lparr>masks = map segmentation filtered_masks,
                    scores = map predicted_iou filtered_masks\<rparr>, [Generate img])))"

text \<open>\<^verbatim>\<open>segment_with_points\<close>: one multi-mask query with all points.\<close>

definition segment_with_points ::
  "env \<Rightarrow> SAM2Predictor \<Rightarrow> image \<Rightarrow> int list list \<Rightarrow> (exn + seg_result) \<times> model_call list" where
  "segment_with_points E self img pts =
     (if predictor self = None then (Inl (RuntimeError ''Model not loaded''), [])
      else case set_image E img of
        Inl e \<Rightarrow> (Inl e, [SetImage img])
      | Inr _ \<Rightarrow>
          (case predict E img (PointPrompt pts) True of
             Inl e \<Rightarrow> (Inl e, [SetImage img, Predict (PointPrompt pts) True])
           | Inr (ms, ss) \<Rightarrow>
               (Inr \<lparr>masks = ms, scores = ss\<rparr>, [SetImage img, Predict (PointPrompt pts) True])))"

text \<open>
  The loop of \<^verbatim>\<open>segment_with_boxes\<close>: one single-mask query per box, the results appended
  to \<open>all_masks\<close> and \<open>all_scores\<close>; an exception leaves the loop.
\<close>

fun boxes_loop ::
  "env \<Rightarrow> image \<Rightarrow> int list list \<Rightarrow> mask list \<Rightarrow> rat list \<Rightarrow> (exn + seg_result) \<times> model_call list" where
  "boxes_loop E img [] all_masks all_scores = (Inr \<lparr>masks = all_masks, scores = all_scores\<rparr>, [])"
| "boxes_loop E img (box # rest) all_masks all_scores =
     (case predict E img (BoxPrompt box) False of
        Inl e \<Rightarrow> (Inl e, [Predict (BoxPrompt box) False])
      | Inr (ms, ss) \<Rightarrow>
          (case boxes_loop E img rest (all_masks @ ms) (all_scores @ ss) of
             (r, calls) \<Rightarrow> (r, Predict (BoxPrompt box) False # calls)))"

definition segment_with_boxes ::
  "env \<Rightarrow> SAM2Predictor \<Rightarrow> image \<Rightarrow> int list list \<Rightarrow> (exn + seg_result) \<times> model_call list" where
  "segment_with_boxes E self img bxs =
     (if predictor self = None then (Inl (RuntimeError ''Model not loaded''), [])
      else case set_image E img of
        Inl e \<Rightarrow> (Inl e, [SetImage img])
      | Inr _ \<Rightarrow>
          (case boxes_loop E img bxs [] [] of
             (r, calls) \<Rightarrow> (r, SetImage img # calls)))"

section \<open>The service: \<^verbatim>\<open>main.py\<close>\<close>

subsection \<open>Image and mask codec\<close>

text \<open>
  \<^verbatim>\<open>process_image_data\<close>: whatever PIL raises becomes \<^verbatim>\<open>HTTPException(400)\<close>.
  \<open>image_open\<close> stands for opening, converting to RGB and \<^verbatim>\<open>np.array\<close>.
\<close>

definition process_image_data :: "env \<Rightarrow> byte list \<Rightarrow> exn + image" where
  "process_image_data E image_data =
     (case image_open E image_data of
        Inl e \<Rightarrow> Inl (HTTPException 400 ''Invalid image data'')
      | Inr image_array \<Rightarrow> Inr image_array)"

text \<open>\<^verbatim>\<open>base64.b64encode\<close>: the standard alphabet, three bytes to four characters, padded.\<close>

definition b64_alphabet :: string where
  "b64_alphabet = ''ABCDEFGHIJKLMNOPQRSTUVWXYZabcdefghijklmnopqrstuvwxyz0123456789+/''"

definition b64_char :: "nat \<Rightarrow> char" where
  "b64_char i = b64_alphabet ! i"

fun b64encode :: "byte list \<Rightarrow> string" where
  "b64encode [] = []"
| "b64encode [a] =
     (let n = unat a * 65536
      in [b64_char (n div 262144), b64_char (n div 4096 mod 64), CHR ''='', CHR ''=''])"
| "b64encode [a, b] =
     (let n = unat a * 65536 + unat b * 256
      in [b64_char (n div 262144), b64_char (n div 4096 mod 64), b64_char (n div 64 mod 64),
          CHR ''=''])"
| "b64encode (a # b # c # rest) =
     (let n = unat a * 65536 + unat b * 256 + unat c
      in [b64_char (n div 262144), b64_char (n div 4096 mod 64), b64_char (n div 64 mod 64),
          b64_char (n mod 64)] @ b64encode rest)"

text \<open>\<^verbatim>\<open>(mask * 255).astype(np.uint8)\<close>: true is 255, false is 0.\<close>

definition mask_uint8 :: "mask \<Rightarrow> byte list list" where
  "mask_uint8 m = map (map (\<lambda>b. if b then 255 else 0)) m"

text \<open>
  \<^verbatim>\<open>encode_mask_to_base64\<close> on an array: \<open>png_save\<close> stands for \<^verbatim>\<open>Image.fromarray\<close>
  and \<^verbatim>\<open>save(format='PNG')\<close>; any exception gives the empty string.
\<close>

definition encode_mask_to_base64 :: "env \<Rightarrow> mask \<Rightarrow> string" where
  "encode_mask_to_base64 E m =
     (case png_save E (mask_uint8 m) of
        Inl e \<Rightarrow> []
      | Inr buffer \<Rightarrow> b64encode buffer)"

subsection \<open>Routing\<close>

text \<open>
  The parameters of \<^verbatim>\<open>/segment\<close> and \<^verbatim>\<open>/segment-url\<close> besides the image, as FastAPI
  binds them from the form: an absent or empty \<^verbatim>\<open>mode\<close> field is bound to the default
  \<^verbatim>\<open>"everything"\<close>, so \<open>mode\<close> is never empty; an absent or empty prompt field is
  \<^verbatim>\<open>None\<close>.
\<close>

record prompt_form =
  mode :: string
  points :: "string option"
  boxes :: "string option"

text \<open>Python's truth value of an optional list: \<^verbatim>\<open>None\<close> and \<^verbatim>\<open>[]\<close> are false.\<close>

definition truthy :: "'a list option \<Rightarrow> bool" where
  "truthy v = (case v of None \<Rightarrow> False | Some xs \<Rightarrow> xs \<noteq> [])"

definition run_segmentation ::
  "env \<Rightarrow> SAM2Predictor \<Rightarrow> image \<Rightarrow> string \<Rightarrow> int list list option \<Rightarrow> int list list option
     \<Rightarrow> (exn + seg_result) \<times> model_call list" where
  "run_segmentation E self image_array md pts bxs =
     (if md = ''everything'' then segment_everything E self image_array
      else if md = ''points'' \<and> truthy pts then segment_with_points E self image_array (the pts)
      else if md = ''boxes'' \<and> truthy bxs then segment_with_boxes E self image_array (the bxs)
      else (Inl (ValueError (''Invalid segmentation mode: '' @ md)), []))"

subsection \<open>The segmentation endpoints\<close>

record mask_entry =
  mask_id :: nat
  mask_b64 :: string
  score :: rat
  area :: nat

record response =
  success :: bool
  resp_mode :: string
  num_masks :: nat
  resp_masks :: "mask_entry list"
  image_shape :: "nat \<times> nat"

text \<open>\<^verbatim>\<open>if points: parsed_points = json.loads(points)\<close>, for an optional form field.\<close>

definition parse_prompt :: "env \<Rightarrow> string option \<Rightarrow> exn + int list list option" where
  "parse_prompt E field =
     (case field of
        None \<Rightarrow> Inr None
      | Some s \<Rightarrow>
          (if s = [] then Inr None
           else case json_loads E s of Inl e \<Rightarrow> Inl e | Inr v \<Rightarrow> Inr (Some v)))"

text \<open>The loop over \<^verbatim>\<open>enumerate(masks)\<close> that builds \<open>encoded_masks\<close>.\<close>

definition encode_results :: "env \<Rightarrow> mask list \<Rightarrow> rat list \<Rightarrow> mask_entry list" where
  "encode_results E ms ss =
     map (\<lambda>(i, m). \<lparr>mask_id = i,
                    mask_b64 = encode_mask_to_base64 E m,
                    score = (if i < length ss then ss ! i else 0),
                    area = np_sum m\<rparr>)
         (enumerate 0 ms)"

definition shape2 :: "image \<Rightarrow> nat \<times> nat" where
  "shape2 image_array = (length image_array, case image_array of [] \<Rightarrow> 0 | row # _ \<Rightarrow> length row)"

text \<open>
  The part of the \<^verbatim>\<open>try\<close> block after the image is decoded; the two endpoints have the
  same text there.
\<close>

definition segment_decoded ::
  "env \<Rightarrow> SAM2Predictor \<Rightarrow> image \<Rightarrow> prompt_form \<Rightarrow> (exn + response) \<times> model_call list" where
  "segment_decoded E self image_array form =
     (case parse_prompt E (points form) of
        Inl e \<Rightarrow> (Inl e, [])
      | Inr parsed_points \<Rightarrow>
          (case parse_prompt E (boxes form) of
             Inl e \<Rightarrow> (Inl e, [])
           | Inr parsed_boxes \<Rightarrow>
               (case run_segmentation E self image_array (mode form) parsed_points parsed_boxes of
                  (Inl e, calls) \<Rightarrow> (Inl e, calls)
                | (Inr result, calls) \<Rightarrow>
                    (let encoded_masks = encode_results E (masks result) (scores result)
                     in (Inr \<lparr>success = True,
                              resp_mode = mode form,
                              num_masks = length encoded_masks,
                              resp_masks = encoded_masks,
                              image_shape = shape2 image_array\<rparr>, calls)))))"

text \<open>\<^verbatim>\<open>except Exception as e: raise HTTPException(status_code=500, detail=str(e))\<close>.\<close>

definition except_500 :: "(exn + 'a) \<times> model_call list \<Rightarrow> (exn + 'a) \<times> model_call list" where
  "except_500 r =
     (case r of
        (Inl e, calls) \<Rightarrow> (Inl (HTTPException 500 (str_exn e)), calls)
      | (Inr v, calls) \<Rightarrow> (Inr v, calls))"

text \<open>
  \<^verbatim>\<open>POST /segment\<close>. The first argument after the collaborators is the global
  \<^verbatim>\<open>predictor\<close>, \<^verbatim>\<open>None\<close> until \<^verbatim>\<open>SAM2Predictor()\<close> has been constructed.
\<close>

definition segment_image ::
  "env \<Rightarrow> SAM2Predictor option \<Rightarrow> byte list \<Rightarrow> prompt_form \<Rightarrow> (exn + response) \<times> model_call list" where
  "segment_image E g image_data form =
     (case g of
        None \<Rightarrow> (Inl (HTTPException 503 ''SAM 2 model not loaded''), [])
      | Some self \<Rightarrow>
          except_500
            (case process_image_data E image_data of
               Inl e \<Rightarrow> (Inl e, [])
             | Inr image_array \<Rightarrow> segment_decoded E self image_array form))"

text \<open>\<^verbatim>\<open>POST /segment-url\<close>: \<open>requests_get\<close> includes \<^verbatim>\<open>raise_for_status\<close>.\<close>

definition segment_image_url ::
  "env \<Rightarrow> SAM2Predictor option \<Rightarrow> string \<Rightarrow> prompt_form \<Rightarrow> (exn + response) \<times> model_call list" where
  "segment_image_url E g image_url form =
     (case g of
        None \<Rightarrow> (Inl (HTTPException 503 ''SAM 2 model not loaded''), [])
      | Some self \<Rightarrow>
          except_500
            (case requests_get E image_url of
               Inl e \<Rightarrow> (Inl e, [])
             | Inr content \<Rightarrow>
                 (case process_image_data E content of
                    Inl e \<Rightarrow> (Inl e, [])
                  | Inr image_array \<Rightarrow> segment_decoded E self image_array form)))"

text \<open>
  The status line FastAPI sends: 200 for a returned body, the code of a raised
  \<^verbatim>\<open>HTTPException\<close>, 500 for any other exception.
\<close>

fun status_code :: "exn + 'a \<Rightarrow> nat" where
  "status_code (Inr _) = 200"
| "status_code (Inl (HTTPException code _)) = code"
| "status_code (Inl _) = 500"

subsection \<open>Health and loading\<close>



text \<open>\<^verbatim>\<open>startup_event\<close>, from \<^verbatim>\<open>predictor = None\<close>: a failure is logged, not raised.\<close>

definition startup_event :: "env \<Rightarrow> SAM2Predictor option" where
  "startup_event E =
     (case init_predictor E ''tiny'' of
        Inl e \<Rightarrow> None
      | Inr p \<Rightarrow> Some (snd (load_model E p)))"

text \<open>\<^verbatim>\<open>POST /load-model\<close>, run without interleaving: the body and the new global.\<close>

definition load_model_endpoint ::
  "env \<Rightarrow> SAM2Predictor option \<Rightarrow> (string \<times> string) \<times> SAM2Predictor option" where
  "load_model_endpoint E g =
     (case (case g of None \<Rightarrow> init_predictor E ''tiny'' | Some p \<Rightarrow> Inr p) of
        Inl e \<Rightarrow> ((''error'', str_exn e), g)
      | Inr p \<Rightarrow>
          (if model p \<noteq> None then ((''success'', ''Model already loaded''), Some p)
           else case load_model E p of
             (None, p') \<Rightarrow> ((''success'', ''Model loaded successfully''), Some p')
           | (Some e, p') \<Rightarrow> ((''error'', str_exn e), Some p')))"

subsection \<open>Two callers of \<^verbatim>\<open>/load-model\<close>\<close>

text \<open>
  A call of \<^verbatim>\<open>load_model_endpoint\<close> runs on the event loop without interruption up to an
  \<^verbatim>\<open>await\<close> that suspends it. There is one: the executor call in \<^verbatim>\<open>download_model\<close>,
  awaited from \<^verbatim>\<open>load_model\<close>, which is reached when the checkpoint has to be fetched
  (with the checkpoint on disk the call does not suspend, and no other call can run inside
  it). The call is therefore two atomic steps: \<open>load_begin\<close>, up to the start of the
  download, and \<open>load_finish\<close>, from the download's result to the response. Both work on the
  object the global \<^verbatim>\<open>predictor\<close> refers to. The events record the downloads started
  and the models built.
\<close>

datatype load_event = Download string string | Build string string string

record pending_load =
  pending_config :: string
  pending_checkpoint :: string
  pending_url :: string

datatype load_task = NotStarted | Suspended pending_load | Returned "string \<times> string"

definition load_begin ::
  "env \<Rightarrow> SAM2Predictor option \<Rightarrow> load_task \<times> SAM2Predictor option \<times> load_event list" where
  "load_begin E g =
     (case (case g of None \<Rightarrow> init_predictor E ''tiny'' | Some p \<Rightarrow> Inr p) of
        Inl e \<Rightarrow> (Returned (''error'', str_exn e), g, [])
      | Inr p \<Rightarrow>
          (if model p \<noteq> None then (Returned (''success'', ''Model already loaded''), Some p, [])
           else if \<not> sam2_installed E
             then (Returned (''error'', str_exn (ImportError ''SAM 2 package not found'')), Some p, [])
           else case model_configs (model_size p) of
             None \<Rightarrow>
               (Returned (''error'', str_exn (ValueError (''Invalid model size: '' @ model_size p))),
                Some p, [])
           | Some (config, checkpoint, url) \<Rightarrow>
               (Suspended \<lparr>pending_config = config, pending_checkpoint = checkpoint,
                           pending_url = url\<rparr>,
                Some p, [Download url checkpoint])))"

text \<open>
  The second step. A suspended call has set the global, so its \<^verbatim>\<open>None\<close> case does not
  arise.
\<close>

definition load_finish ::
  "env \<Rightarrow> pending_load \<Rightarrow> SAM2Predictor option \<Rightarrow> load_task \<times> SAM2Predictor option \<times> load_event list" where
  "load_finish E pl g =
     (case g of
        None \<Rightarrow> (Returned (''error'', ''''), g, [])
      | Some self \<Rightarrow>
          (case download_model E (pending_url pl) (pending_checkpoint pl) of
             Inl e \<Rightarrow> (Returned (''error'', str_exn e), Some self, [])
           | Inr checkpoint_path \<Rightarrow>
               (case build_sam2 E (pending_config pl) checkpoint_path (device self) of
                  Inl e \<Rightarrow>
                    (Returned (''error'', str_exn e), Some self,
                     [Build (pending_config pl) checkpoint_path (device self)])
                | Inr m \<Rightarrow>
                    (case new_image_predictor E m of
                       Inl e \<Rightarrow>
                         (Returned (''error'', str_exn e), Some (self\<lparr>model := Some m\<rparr>),
                          [Build (pending_config pl) checkpoint_path (device self)])
                     | Inr p \<Rightarrow>
                         (Returned (''success'', ''Model loaded successfully''),
                          Some (self\<lparr>model := Some m, predictor := Some p\<rparr>),
                          [Build (pending_config pl) checkpoint_path (device self)])))))"







text \<open>One call run with no other call in between.\<close>

definition load_alone :: "env \<Rightarrow> SAM2Predictor option \<Rightarrow> load_task \<times> SAM2Predictor option" where
  "load_alone E g =
     (case load_begin E g of
        (Suspended pl, g', evs) \<Rightarrow> (case load_finish E pl g' of (t, g'', evs') \<Rightarrow> (t, g''))
      | (t, g', evs) \<Rightarrow> (t, g'))"


section \<open>The specification's notions\<close>

text \<open>
  Section 4.4 of the specification defines IoU on masks as sets of pixels,
  \<open>|A \<inter> B| / |A \<union> B|\<close>, and 0 when the union is empty.
\<close>

definition pixels :: "mask \<Rightarrow> (nat \<times> nat) set" where
  "pixels m = {(r, c). r < length m \<and> c < length (m ! r) \<and> m ! r ! c}"

definition iou :: "mask \<Rightarrow> mask \<Rightarrow> rat" where
  "iou A B =
     (if card (pixels A \<union> pixels B) = 0 then 0
      else of_nat (card (pixels A \<inter> pixels B)) / of_nat (card (pixels A \<union> pixels B)))"

text \<open>
  Greedy overlap suppression as the specification words it (steps 2 and 3): scan the
  candidates in order; discard a candidate when its IoU against some accepted mask exceeds
  0.6, accept it otherwise.
\<close>

fun greedy_suppress :: "mask_data list \<Rightarrow> mask_data list \<Rightarrow> mask_data list" where
  "greedy_suppress accepted [] = accepted"
| "greedy_suppress accepted (c # cs) =
     (if list_ex (\<lambda>a. iou (segmentation c) (segmentation a) > 6 / 10) accepted
      then greedy_suppress accepted cs
      else greedy_suppress (accepted @ [c]) cs)"

text \<open>
  Modelled from the spec: the decoder of an encoded mask is not part of the repository's
  Python sources. The specification's round trip reads the transport text back, decodes the
  lossless image, and takes the non-zero pixels as true. \<open>b64decode\<close> is the inverse
  alphabet lookup of the standard encoding; the image decoder is a parameter.
\<close>

fun b64_index_in :: "char \<Rightarrow> string \<Rightarrow> nat option" where
  "b64_index_in c [] = None"
| "b64_index_in c (x # xs) = (if c = x then Some 0 else map_option Suc (b64_index_in c xs))"

definition b64_index :: "char \<Rightarrow> nat option" where
  "b64_index c = b64_index_in c b64_alphabet"

fun b64decode :: "string \<Rightarrow> byte list option" where
  "b64decode [] = Some []"
| "b64decode (c1 # c2 # c3 # c4 # rest) =
     (if c3 = CHR ''='' \<and> c4 = CHR ''='' \<and> rest = [] then
        (case (b64_index c1, b64_index c2) of
           (Some i1, Some i2) \<Rightarrow>
             (let n = i1 * 262144 + i2 * 4096 in Some [of_nat (n div 65536)])
         | _ \<Rightarrow> None)
      else if c4 = CHR ''='' \<and> rest = [] then
        (case (b64_index c1, b64_index c2, b64_index c3) of
           (Some i1, Some i2, Some i3) \<Rightarrow>
             (let n = i1 * 262144 + i2 * 4096 + i3 * 64
              in Some [of_nat (n div 65536), of_nat (n div 256 mod 256)])
         | _ \<Rightarrow> None)
      else
        (case (b64_index c1, b64_index c2, b64_index c3, b64_index c4) of
           (Some i1, Some i2, Some i3, Some i4) \<Rightarrow>
             (let n = i1 * 262144 + i2 * 4096 + i3 * 64 + i4
              in case b64decode rest of
                   None \<Rightarrow> None
                 | Some bs \<Rightarrow>
                     Some (of_nat (n div 65536) # of_nat (n div 256 mod 256) # of_nat (n mod 256) # bs))
         | _ \<Rightarrow> None))"
| "b64decode _ = None"

definition decode_mask_from_base64 ::
  "(byte list \<Rightarrow> byte list list option) \<Rightarrow> string \<Rightarrow> mask option" where
  "decode_mask_from_base64 png_load s =
     (case b64decode s of
        None \<Rightarrow> None
      | Some buffer \<Rightarrow>
          (case png_load buffer of
             None \<Rightarrow> None
           | Some img \<Rightarrow> Some (map (map (\<lambda>v. v \<noteq> 0)) img)))"

text \<open>
  Step 1 of the specification: \<open>ys\<close> is \<open>xs\<close> sorted by \<open>key\<close>, descending, with ties in
  their original order.
\<close>

definition stable_sorted_desc :: "('a \<Rightarrow> rat) \<Rightarrow> 'a list \<Rightarrow> 'a list \<Rightarrow> bool" where
  "stable_sorted_desc key xs ys \<longleftrightarrow>
     sorted_wrt (\<lambda>a b. key a \<ge> key b) ys \<and>
     mset ys = mset xs \<and>
     list_all (\<lambda>c. filter (\<lambda>x. key x = key c) ys = filter (\<lambda>x. key x = key c) xs) xs"

text \<open>The invariant of the overlap filter: no entry overlaps an earlier one beyond the threshold.\<close>

definition separated :: "mask_data list \<Rightarrow> bool" where
  "separated xs \<longleftrightarrow>
     sorted_wrt (\<lambda>a b. calculate_mask_iou (segmentation b) (segmentation a) \<le> overlap_threshold) xs"



text \<open>
  The model's side of a single-mask query: the one mask it returns for a box, if it returns
  exactly one.
\<close>

definition box_mask :: "env \<Rightarrow> image \<Rightarrow> int list \<Rightarrow> mask option" where
  "box_mask E img box =
     (case predict E img (BoxPrompt box) False of
        Inr ([m], ss) \<Rightarrow> Some m
      | _ \<Rightarrow> None)"

section \<open>A concrete run\<close>

text \<open>
  Small collaborators on which the definitions can be evaluated: a 1 x 2 image, a generator
  that proposes three masks, a model that answers a box with one mask and a point set with
  two masks but one score, and an image format that stores a one-row array as its bytes.
\<close>

definition sample_image :: image where
  "sample_image = [[(0, 0, 0), (0, 0, 0)]]"

definition sample_candidates :: "mask_data list" where
  "sample_candidates =
     [\<lparr>segmentation = [[True, True]], predicted_iou = 1 / 2\<rparr>,
      \<lparr>segmentation = [[True, False]], predicted_iou = 3 / 4\<rparr>,
      \<lparr>segmentation = [[True, True]], predicted_iou = 3 / 4\<rparr>]"

definition sample_env :: env where
  "sample_env =
     \<lparr>cuda_available = False,
      mkdir_models = None,
      sam2_installed = True,
      download_model = (\<lambda>url checkpoint. Inr checkpoint),
      build_sam2 = (\<lambda>config path dev. Inr (SAM2Model config path)),
      new_image_predictor = (\<lambda>m. Inr (SAM2ImagePredictor m)),
      image_open = (\<lambda>bs. if bs = [] then Inl (OtherError ''cannot identify image file'')
                          else Inr sample_image),
      json_loads = (\<lambda>s. if s = ''[]'' then Inr []
                         else if s = ''[[1,0]]'' then Inr [[1, 0]]
                         else if s = ''[[0,0,1,1],[1,0,2,1]]'' then Inr [[0, 0, 1, 1], [1, 0, 2, 1]]
                         else Inl (OtherError ''Expecting value'')),
      requests_get = (\<lambda>url. Inr [1]),
      generate = (\<lambda>img. Inr sample_candidates),
      set_image = (\<lambda>img. Inr ()),
      predict = (\<lambda>img p multimask.
                   case p of
                     BoxPrompt b \<Rightarrow> Inr ([[[b ! 0 = 0, True]]], [9 / 10])
                   | PointPrompt ps \<Rightarrow> Inr ([[[True, False]], [[True, True]]], [9 / 10])),
      png_save = (\<lambda>img. Inr (concat img))\<rparr>"

definition sample_png_load :: "byte list \<Rightarrow> byte list list option" where
  "sample_png_load buffer = Some [buffer]"

text \<open>The predictor object after a successful and after a failed load.\<close>

definition loaded_predictor :: "SAM2Predictor option" where
  "loaded_predictor = startup_event sample_env"

text \<open>The same collaborators on a machine where the SAM 2 package is missing.\<close>

definition sample_env_without_sam2 :: env where
  "sample_env_without_sam2 = sample_env\<lparr>sam2_installed := False\<rparr>"

definition unloaded_predictor :: "SAM2Predictor option" where
  "unloaded_predictor = startup_event sample_env_without_sam2"



section \<open>Sorting and the overlap filter\<close>

lemma py_sorted_reverse_desc:
  "sorted_wrt (\<lambda>a b. key a \<ge> key b) (py_sorted_reverse key xs)"
proof -
  have "sorted (map key (sort_key key (rev xs)))"
    by simp
  then have "sorted_wrt (\<lambda>a b. key a \<le> key b) (sort_key key (rev xs))"
    by (simp only: sorted_map)
  then show ?thesis
    unfolding py_sorted_reverse_def by (simp only: sorted_wrt_rev)
qed

lemma py_sorted_reverse_mset: "mset (py_sorted_reverse key xs) = mset xs"
  by (simp add: py_sorted_reverse_def)

lemma py_sorted_reverse_stable:
  "filter (\<lambda>x. key x = k) (py_sorted_reverse key xs) = filter (\<lambda>x. key x = k) xs"
proof -
  have "filter (\<lambda>x. key x = k) (py_sorted_reverse key xs)
        = rev (filter (\<lambda>x. key x = k) (sort_key key (rev xs)))"
    by (simp add: py_sorted_reverse_def rev_filter)
  also have "\<dots> = rev (filter (\<lambda>x. key x = k) (rev xs))"
    by (simp only: sort_key_stable)
  also have "\<dots> = filter (\<lambda>x. key x = k) xs"
    by (simp add: rev_filter)
  finally show ?thesis .
qed

lemma py_sorted_reverse_is_stable_sort:
  "stable_sorted_desc key xs (py_sorted_reverse key xs)"
  by (simp add: stable_sorted_desc_def py_sorted_reverse_desc py_sorted_reverse_mset
      py_sorted_reverse_stable list_all_iff)

lemma py_sorted_reverse_id:
  assumes "sorted_wrt (\<lambda>a b. key a \<ge> key b) xs"
  shows "py_sorted_reverse key xs = xs"
proof -
  have "sorted_wrt (\<lambda>a b. key a \<le> key b) (rev xs)"
    using assms by (simp add: sorted_wrt_rev)
  then have "sorted (map key (rev xs))"
    by (simp only: sorted_map)
  then have "sort_key key (rev xs) = rev xs"
    by (rule sort_key_id_if_sorted)
  then show ?thesis
    by (simp add: py_sorted_reverse_def)
qed

lemma filter_loop_sorted_wrt:
  "sorted_wrt R (acc @ xs) \<Longrightarrow> sorted_wrt R (filter_loop acc xs)"
proof (induction xs arbitrary: acc)
  case Nil
  then show ?case by simp
next
  case (Cons x xs)
  have drop: "sorted_wrt R (acc @ xs)"
    using Cons.prems by (auto simp: sorted_wrt_append)
  have keep: "sorted_wrt R ((acc @ [x]) @ xs)"
    using Cons.prems by simp
  show ?case
    using Cons.IH[OF drop] Cons.IH[OF keep] by simp
qed

lemma filter_loop_set: "set (filter_loop acc xs) \<subseteq> set acc \<union> set xs"
proof (induction xs arbitrary: acc)
  case Nil
  then show ?case by simp
next
  case (Cons x xs)
  show ?case
    using Cons.IH[of acc] Cons.IH[of "acc @ [x]"] by auto
qed

lemma length_le_1_sorted_wrt: "length xs \<le> 1 \<Longrightarrow> sorted_wrt R xs"
  by (cases xs) auto

lemma filter_overlapping_masks_desc:
  "sorted_wrt (\<lambda>a b. predicted_iou a \<ge> predicted_iou b) (filter_overlapping_masks ms)"
  by (simp add: filter_overlapping_masks_def length_le_1_sorted_wrt filter_loop_sorted_wrt
      py_sorted_reverse_desc)

lemma filter_overlapping_masks_set: "set (filter_overlapping_masks ms) \<subseteq> set ms"
proof (cases "length ms \<le> 1")
  case True
  then show ?thesis by (simp add: filter_overlapping_masks_def)
next
  case False
  have "set (py_sorted_reverse predicted_iou ms) = set ms"
    by (metis py_sorted_reverse_mset set_mset_mset)
  then show ?thesis
    using False filter_loop_set[of "[]" "py_sorted_reverse predicted_iou ms"]
    by (simp add: filter_overlapping_masks_def)
qed

lemma second_sort_id:
  "py_sorted_reverse predicted_iou (filter_overlapping_masks ms) = filter_overlapping_masks ms"
  by (rule py_sorted_reverse_id) (rule filter_overlapping_masks_desc)

section \<open>IoU on pixel sets\<close>

lemma pixels_Sigma:
  "pixels m = (SIGMA r : {..<length m}. {c. c < length (m ! r) \<and> m ! r ! c})"
  by (auto simp: pixels_def)

lemma np_sum_card: "np_sum m = card (pixels m)"
proof -
  have "np_sum m = sum_list (map (\<lambda>row. length (filter id row)) m)"
    by (simp add: np_sum_def filter_concat length_concat comp_def)
  also have "\<dots> = (\<Sum>r<length m. length (filter id (m ! r)))"
    by (simp add: sum_list_sum_nth atLeast0LessThan)
  also have "\<dots> = (\<Sum>r<length m. card {c. c < length (m ! r) \<and> m ! r ! c})"
    by (simp add: length_filter_conv_card)
  also have "\<dots> = card (pixels m)"
    unfolding pixels_Sigma by (subst card_SigmaI) auto
  finally show ?thesis .
qed

lemma shape_eqD:
  assumes "shape a = shape b"
  shows "length a = length b" and "r < length a \<Longrightarrow> length (a ! r) = length (b ! r)"
proof -
  show len: "length a = length b"
    using assms by (metis shape_def length_map)
  show "length (a ! r) = length (b ! r)" if "r < length a"
    using assms that len by (metis shape_def nth_map)
qed

lemma pixels_logical_and:
  assumes "shape a = shape b"
  shows "pixels (logical_and a b) = pixels a \<inter> pixels b"
  using shape_eqD[OF assms]
  by (auto simp: pixels_def logical_and_def)

lemma pixels_logical_or:
  assumes "shape a = shape b"
  shows "pixels (logical_or a b) = pixels a \<union> pixels b"
  using shape_eqD[OF assms]
  by (auto simp: pixels_def logical_or_def)

lemma calculate_mask_iou_is_iou:
  "shape a = shape b \<Longrightarrow> calculate_mask_iou a b = iou a b"
  by (simp add: calculate_mask_iou_def iou_def np_sum_card pixels_logical_and pixels_logical_or Let_def)

lemma iou_commute: "iou a b = iou b a"
  by (simp add: iou_def Int_commute Un_commute)

lemma is_overlapping_iff:
  "is_overlapping cur acc \<longleftrightarrow>
     (\<exists>a \<in> set acc. calculate_mask_iou cur (segmentation a) > overlap_threshold)"
  by (induction acc) auto

lemma filter_loop_is_greedy:
  assumes "\<forall>c \<in> set acc \<union> set xs. shape (segmentation c) = s"
  shows "filter_loop acc xs = greedy_suppress acc xs"
  using assms
proof (induction xs arbitrary: acc)
  case Nil
  then show ?case by simp
next
  case (Cons x xs)
  have same: "calculate_mask_iou (segmentation x) (segmentation a) = iou (segmentation x) (segmentation a)"
    if "a \<in> set acc" for a
    using Cons.prems that by (intro calculate_mask_iou_is_iou) simp
  have test: "is_overlapping (segmentation x) acc
              \<longleftrightarrow> list_ex (\<lambda>a. iou (segmentation x) (segmentation a) > 6 / 10) acc"
    using same by (auto simp: is_overlapping_iff list_ex_iff overlap_threshold_def)
  have ih1: "filter_loop acc xs = greedy_suppress acc xs"
    using Cons.prems by (intro Cons.IH) auto
  have ih2: "filter_loop (acc @ [x]) xs = greedy_suppress (acc @ [x]) xs"
    using Cons.prems by (intro Cons.IH) auto
  show ?case
    using test ih1 ih2 by simp
qed

lemma py_sorted_reverse_set: "set (py_sorted_reverse key xs) = set xs"
  by (simp add: py_sorted_reverse_def)

lemma py_sorted_reverse_short: "length xs \<le> 1 \<Longrightarrow> py_sorted_reverse key xs = xs"
  by (intro py_sorted_reverse_id length_le_1_sorted_wrt)

lemma greedy_suppress_short: "length xs \<le> 1 \<Longrightarrow> greedy_suppress [] xs = xs"
  by (cases xs) auto

lemma filter_overlapping_masks_is_greedy:
  assumes "\<forall>c \<in> set ms. shape (segmentation c) = s"
  shows "filter_overlapping_masks ms = greedy_suppress [] (py_sorted_reverse predicted_iou ms)"
proof (cases "length ms \<le> 1")
  case True
  then show ?thesis
    by (simp add: filter_overlapping_masks_def py_sorted_reverse_short greedy_suppress_short)
next
  case False
  have "filter_loop [] (py_sorted_reverse predicted_iou ms)
        = greedy_suppress [] (py_sorted_reverse predicted_iou ms)"
    using assms by (intro filter_loop_is_greedy[where s = s]) (simp add: py_sorted_reverse_set)
  then show ?thesis
    using False by (simp add: filter_overlapping_masks_def)
qed

lemma filter_loop_separated: "separated acc \<Longrightarrow> separated (filter_loop acc xs)"
proof (induction xs arbitrary: acc)
  case Nil
  then show ?case by simp
next
  case (Cons x xs)
  show ?case
  proof (cases "is_overlapping (segmentation x) acc")
    case True
    then show ?thesis using Cons by simp
  next
    case False
    then have "separated (acc @ [x])"
      using Cons.prems
      by (auto simp: separated_def sorted_wrt_append is_overlapping_iff not_less)
    then show ?thesis
      using False Cons.IH by simp
  qed
qed

lemma filter_overlapping_masks_separated: "separated (filter_overlapping_masks ms)"
proof (cases "length ms \<le> 1")
  case True
  then show ?thesis
    by (simp add: filter_overlapping_masks_def separated_def length_le_1_sorted_wrt)
next
  case False
  have "separated []" by (simp add: separated_def)
  then show ?thesis
    using False filter_loop_separated by (simp add: filter_overlapping_masks_def)
qed

lemma segment_everything_result:
  assumes "predictor self \<noteq> None" and "generate E img = Inr cands"
  shows "segment_everything E self img =
           (Inr \<lparr>masks = map segmentation (take max_masks (filter_overlapping_masks cands)),
                 scores = map predicted_iou (take max_masks (filter_overlapping_masks cands))\<rparr>,
            [Generate img])"
  using assms by (simp add: segment_everything_def second_sort_id Let_def)

section \<open>Everything mode\<close>

lemma stable_sorted_desc_unique:
  assumes "stable_sorted_desc key xs ys"
  shows "ys = py_sorted_reverse key xs"
proof -
  have desc: "sorted_wrt (\<lambda>a b. key a \<ge> key b) ys"
    and perm: "mset ys = mset xs"
    and ties: "\<And>c. c \<in> set xs \<Longrightarrow> filter (\<lambda>x. key x = key c) ys = filter (\<lambda>x. key x = key c) xs"
    using assms by (auto simp: stable_sorted_desc_def list_all_iff)
  have "sort_key key (rev xs) = rev ys"
  proof (rule properties_for_sort_key)
    show "mset (rev ys) = mset (rev xs)"
      using perm by simp
    show "sorted (map key (rev ys))"
      using desc by (simp add: sorted_map sorted_wrt_rev)
    show "filter (\<lambda>x. key k = key x) (rev ys) = filter (\<lambda>x. key k = key x) (rev xs)"
      if "k \<in> set (rev ys)" for k
    proof -
      have "k \<in> set xs"
        using that perm by (metis set_rev set_mset_mset)
      from ties[OF this] have "filter (\<lambda>x. key k = key x) ys = filter (\<lambda>x. key k = key x) xs"
        by (simp add: eq_commute)
      then show ?thesis
        by (simp add: rev_filter[symmetric])
    qed
  qed
  then show ?thesis
    by (simp add: py_sorted_reverse_def)
qed

text \<open>
  Claim C1. The everything-mode post-processor is greedy overlap suppression: the candidates
  are sorted by quality score, descending, by a stable sort; they are scanned in that order,
  and a candidate is discarded exactly when its IoU (intersection over union of the pixel
  sets, 0 for an empty union) against some accepted mask exceeds 0.6; the accepted list is
  cut to its first 25 entries. The model is called once, to generate the candidates, which
  have the image's shape.
\<close>
theorem segment_everything_greedy_suppression:
  assumes "predictor self \<noteq> None"
    and "generate E img = Inr cands"
    and "list_all (\<lambda>c. shape (segmentation c) = shape img) cands"
  shows "\<exists>sorted_cands.
           stable_sorted_desc predicted_iou cands sorted_cands \<and>
           (let kept = take 25 (greedy_suppress [] sorted_cands)
            in segment_everything E self img =
                 (Inr \<lparr>masks = map segmentation kept, scores = map predicted_iou kept\<rparr>,
                  [Generate img]))"
proof -
  let ?sorted = "py_sorted_reverse predicted_iou cands"
  have sorted: "stable_sorted_desc predicted_iou cands ?sorted"
    by (rule py_sorted_reverse_is_stable_sort)
  have "\<forall>c \<in> set cands. shape (segmentation c) = shape img"
    using assms(3) by (simp add: list_all_iff)
  then have "filter_overlapping_masks cands = greedy_suppress [] ?sorted"
    by (rule filter_overlapping_masks_is_greedy)
  then have "segment_everything E self img =
      (Inr \<lparr>masks = map segmentation (take 25 (greedy_suppress [] ?sorted)),
            scores = map predicted_iou (take 25 (greedy_suppress [] ?sorted))\<rparr>, [Generate img])"
    using segment_everything_result[OF assms(1,2)] by (simp add: max_masks_def)
  with sorted show ?thesis
    by (intro exI[of _ ?sorted]) (simp add: Let_def)
qed

text \<open>
  Claim C2. In every everything-mode result, any two masks at different positions have an
  IoU of at most 0.6, and there are at most 25 masks.
\<close>
theorem segment_everything_separated:
  assumes "fst (segment_everything E self img) = Inr res"
    and "generate E img = Inr cands"
    and "list_all (\<lambda>c. shape (segmentation c) = shape img) cands"
  shows "length (masks res) \<le> 25 \<and>
         (\<forall>i j. i < length (masks res) \<and> j < length (masks res) \<and> i \<noteq> j
            \<longrightarrow> iou (masks res ! i) (masks res ! j) \<le> 6 / 10)"
proof -
  define kept where "kept = take max_masks (filter_overlapping_masks cands)"
  have loaded: "predictor self \<noteq> None"
    using assms(1) by (auto simp: segment_everything_def split: if_splits)
  have res: "masks res = map segmentation kept"
    using assms(1) segment_everything_result[OF loaded assms(2)] by (auto simp: kept_def)
  have len: "length kept \<le> 25"
    by (simp add: kept_def max_masks_def)
  have sep: "separated kept"
    using filter_overlapping_masks_separated[of cands]
    by (simp add: kept_def separated_def sorted_wrt_take)
  have shapes: "shape (segmentation c) = shape img" if "c \<in> set kept" for c
    using that assms(3) filter_overlapping_masks_set[of cands]
    by (auto simp: kept_def list_all_iff dest: in_set_takeD)
  have ordered: "iou (segmentation (kept ! j)) (segmentation (kept ! i)) \<le> 6 / 10"
    if "i < j" "j < length kept" for i j
  proof -
    have "calculate_mask_iou (segmentation (kept ! j)) (segmentation (kept ! i)) \<le> overlap_threshold"
      using sep that by (simp add: separated_def sorted_wrt_iff_nth_less)
    moreover have "shape (segmentation (kept ! j)) = shape (segmentation (kept ! i))"
      using that shapes by simp
    ultimately show ?thesis
      by (simp add: calculate_mask_iou_is_iou overlap_threshold_def)
  qed
  have "iou (segmentation (kept ! i)) (segmentation (kept ! j)) \<le> 6 / 10"
    if "i < length kept" "j < length kept" "i \<noteq> j" for i j
  proof (cases "i < j")
    case True
    then show ?thesis using ordered[of i j] that by (simp add: iou_commute)
  next
    case False
    then have "j < i" using that by simp
    then show ?thesis using ordered[of j i] that by simp
  qed
  then show ?thesis
    using len by (simp add: res)
qed


lemma loaded_predictor_eq:
  "loaded_predictor =
     Some \<lparr>model_size = ''tiny'', device = ''cpu'',
           model = Some (SAM2Model ''sam2_hiera_t.yaml'' ''sam2_hiera_tiny.pt''),
           predictor = Some (SAM2ImagePredictor (SAM2Model ''sam2_hiera_t.yaml'' ''sam2_hiera_tiny.pt''))\<rparr>"
  by (simp add: loaded_predictor_def startup_event_def init_predictor_def load_model_def
      sample_env_def model_configs_def)

lemma unloaded_predictor_eq:
  "unloaded_predictor =
     Some \<lparr>model_size = ''tiny'', device = ''cpu'', model = None, predictor = None\<rparr>"
  by (simp add: unloaded_predictor_def sample_env_without_sam2_def startup_event_def
      init_predictor_def load_model_def sample_env_def)

theorem segment_everything_greedy_suppression_witness:
  "predictor (the loaded_predictor) \<noteq> None \<and>
   generate sample_env sample_image = Inr sample_candidates \<and>
   list_all (\<lambda>c. shape (segmentation c) = shape sample_image) sample_candidates \<and>
   (\<exists>sorted_cands.
      stable_sorted_desc predicted_iou sample_candidates sorted_cands \<and>
      (let kept = take 25 (greedy_suppress [] sorted_cands)
       in segment_everything sample_env (the loaded_predictor) sample_image =
            (Inr \<lparr>masks = map segmentation kept, scores = map predicted_iou kept\<rparr>,
             [Generate sample_image])))"
proof -
  have h1: "predictor (the loaded_predictor) \<noteq> None"
    by (simp add: loaded_predictor_eq)
  have h2: "generate sample_env sample_image = Inr sample_candidates"
    by (simp add: sample_env_def)
  have h3: "list_all (\<lambda>c. shape (segmentation c) = shape sample_image) sample_candidates"
    by (simp add: sample_candidates_def sample_image_def shape_def)
  from segment_everything_greedy_suppression[OF h1 h2 h3] h1 h2 h3 show ?thesis
    by blast
qed

theorem segment_everything_separated_witness:
  "fst (segment_everything sample_env (the loaded_predictor) sample_image)
     = Inr \<lparr>masks = [[[True, False]], [[True, True]]], scores = [3 / 4, 3 / 4]\<rparr> \<and>
   generate sample_env sample_image = Inr sample_candidates \<and>
   list_all (\<lambda>c. shape (segmentation c) = shape sample_image) sample_candidates \<and>
   iou [[True, False]] [[True, True]] \<le> 6 / 10"
proof -
  have h1: "fst (segment_everything sample_env (the loaded_predictor) sample_image)
     = Inr \<lparr>masks = [[[True, False]], [[True, True]]], scores = [3 / 4, 3 / 4]\<rparr>"
    by (simp add: segment_everything_def loaded_predictor_eq sample_env_def sample_candidates_def
        filter_overlapping_masks_def py_sorted_reverse_def calculate_mask_iou_def shape_def
        np_sum_def logical_and_def logical_or_def overlap_threshold_def max_masks_def Let_def)
  have h2: "generate sample_env sample_image = Inr sample_candidates"
    by (simp add: sample_env_def)
  have h3: "list_all (\<lambda>c. shape (segmentation c) = shape sample_image) sample_candidates"
    by (simp add: sample_candidates_def sample_image_def shape_def)
  have "iou [[True, False]] [[True, True]] \<le> 6 / 10"
    using segment_everything_separated[OF h1 h2 h3, THEN conjunct2, rule_format, of 0 1]
    by simp
  with h1 h2 h3 show ?thesis
    by blast
qed

section \<open>The base64 round trip\<close>

lemma b64_index_in_nth:
  "distinct xs \<Longrightarrow> i < length xs \<Longrightarrow> b64_index_in (xs ! i) xs = Some i"
proof (induction xs arbitrary: i)
  case Nil
  then show ?case by simp
next
  case (Cons x xs)
  show ?case
  proof (cases i)
    case 0
    then show ?thesis by simp
  next
    case (Suc j)
    then have "xs ! j \<in> set xs" using Cons.prems by simp
    then have "xs ! j \<noteq> x" using Cons.prems by auto
    then show ?thesis using Suc Cons by simp
  qed
qed

lemma length_b64_alphabet: "length b64_alphabet = 64"
  by (simp add: b64_alphabet_def)

lemma pad_notin_b64_alphabet: "CHR ''='' \<notin> set b64_alphabet"
  by (simp add: b64_alphabet_def)

lemma distinct_b64_alphabet: "distinct b64_alphabet"
  by (simp add: b64_alphabet_def)

lemma b64_index_char: "i < 64 \<Longrightarrow> b64_index (b64_char i) = Some i"
  by (simp add: b64_index_def b64_char_def b64_index_in_nth distinct_b64_alphabet length_b64_alphabet)

lemma b64_char_not_pad:
  assumes "i < 64"
  shows "b64_char i \<noteq> CHR ''=''"
proof -
  have "b64_alphabet ! i \<in> set b64_alphabet"
    using assms by (intro nth_mem) (simp add: length_b64_alphabet)
  then show ?thesis
    using pad_notin_b64_alphabet by (auto simp: b64_char_def)
qed

lemma base64_digits:
  fixes n m k j r0 r1 r2 :: nat
  assumes "n = m * 64 + r0" and "m = k * 64 + r1" and "k = j * 64 + r2"
  shows "j * 262144 + r2 * 4096 + r1 * 64 + r0 = n"
  using assms by simp

lemma sextets_recombine:
  fixes n :: nat
  shows "n div 262144 * 262144 + n div 4096 mod 64 * 4096 + n div 64 mod 64 * 64 + n mod 64 = n"
proof -
  have a: "n div 4096 = n div 64 div 64"
    by (simp add: div_mult2_eq)
  have b: "n div 262144 = n div 64 div 64 div 64"
    by (simp add: div_mult2_eq)
  show ?thesis
    unfolding a b
    by (rule base64_digits) (simp_all only: div_mult_mod_eq)
qed

lemma div_mod_digit:
  fixes a b r :: nat
  assumes "r < b"
  shows "(a * b + r) div b = a" and "(a * b + r) mod b = r"
  using assms by simp_all

lemma bytes_split:
  fixes x y z :: nat
  assumes "y < 256" "z < 256"
  shows "(x * 65536 + y * 256 + z) div 65536 = x"
    and "(x * 65536 + y * 256 + z) div 256 mod 256 = y"
    and "(x * 65536 + y * 256 + z) mod 256 = z"
proof -
  have eq: "x * 65536 + y * 256 + z = (x * 256 + y) * 256 + z"
    by simp
  have d: "(x * 65536 + y * 256 + z) div 256 = x * 256 + y"
    unfolding eq using assms(2) by (rule div_mod_digit)
  show "(x * 65536 + y * 256 + z) mod 256 = z"
    unfolding eq using assms(2) by (rule div_mod_digit)
  show "(x * 65536 + y * 256 + z) div 256 mod 256 = y"
    unfolding d using assms(1) by (rule div_mod_digit)
  have "(x * 65536 + y * 256 + z) div 65536 = (x * 65536 + y * 256 + z) div 256 div 256"
    by (simp add: div_mult2_eq)
  also have "\<dots> = x"
    unfolding d using assms(1) by (rule div_mod_digit)
  finally show "(x * 65536 + y * 256 + z) div 65536 = x" .
qed

lemma mod_64_of_two_bytes:
  fixes x y :: nat
  shows "(x * 65536 + y * 256) mod 64 = 0"
proof -
  have "x * 65536 + y * 256 = (x * 1024 + y * 4) * 64"
    by simp
  then show ?thesis
    by (simp only: mod_mult_self2_is_0)
qed

lemma mod_4096_of_one_byte:
  fixes x :: nat
  shows "(x * 65536) mod 64 = 0" and "(x * 65536) div 64 mod 64 = 0"
proof -
  have e: "x * 65536 = (x * 1024) * 64"
    by simp
  show "(x * 65536) mod 64 = 0"
    unfolding e by (simp only: mod_mult_self2_is_0)
  have "(x * 65536) div 64 = (x * 16) * 64"
    by simp
  then show "(x * 65536) div 64 mod 64 = 0"
    by (simp only: mod_mult_self2_is_0)
qed

lemma sextet_bounds:
  fixes n :: nat
  assumes "n < 16777216"
  shows "n div 262144 < 64"
  using assms by (simp add: less_mult_imp_div_less)

lemma unat_byte_less: "unat (a :: byte) < 256"
  using unsigned_less[of a] by simp

lemma b64decode_quad:
  assumes "i1 < 64" "i2 < 64" "i3 < 64" "i4 < 64"
  shows "b64decode (b64_char i1 # b64_char i2 # b64_char i3 # b64_char i4 # rest) =
           (let n = i1 * 262144 + i2 * 4096 + i3 * 64 + i4
            in case b64decode rest of
                 None \<Rightarrow> None
               | Some bs \<Rightarrow>
                   Some (of_nat (n div 65536) # of_nat (n div 256 mod 256) # of_nat (n mod 256) # bs))"
  using assms by (simp add: b64_index_char b64_char_not_pad)

lemma b64decode_pad1:
  assumes "i1 < 64" "i2 < 64" "i3 < 64"
  shows "b64decode [b64_char i1, b64_char i2, b64_char i3, CHR ''=''] =
           (let n = i1 * 262144 + i2 * 4096 + i3 * 64
            in Some [of_nat (n div 65536), of_nat (n div 256 mod 256)])"
  using assms by (simp add: b64_index_char b64_char_not_pad)

lemma b64decode_pad2:
  assumes "i1 < 64" "i2 < 64"
  shows "b64decode [b64_char i1, b64_char i2, CHR ''='', CHR ''=''] =
           (let n = i1 * 262144 + i2 * 4096 in Some [of_nat (n div 65536)])"
  using assms by (simp add: b64_index_char b64_char_not_pad)

lemma b64_roundtrip_three:
  fixes a b c :: byte
  assumes rest: "b64decode (b64encode rest) = Some rest"
  shows "b64decode (b64encode (a # b # c # rest)) = Some (a # b # c # rest)"
proof -
  define n where "n = unat a * 65536 + unat b * 256 + unat c"
  have n: "n < 16777216"
    using unat_byte_less[of a] unat_byte_less[of b] unat_byte_less[of c] by (simp add: n_def)
  have enc: "b64encode (a # b # c # rest) =
      b64_char (n div 262144) # b64_char (n div 4096 mod 64) # b64_char (n div 64 mod 64)
        # b64_char (n mod 64) # b64encode rest"
    by (simp add: n_def Let_def)
  have recomb: "n div 262144 * 262144 + n div 4096 mod 64 * 4096 + n div 64 mod 64 * 64 + n mod 64 = n"
    by (rule sextets_recombine)
  have bytes: "n div 65536 = unat a" "n div 256 mod 256 = unat b" "n mod 256 = unat c"
    unfolding n_def using unat_byte_less[of b] unat_byte_less[of c] by (rule bytes_split)+
  show ?thesis
    unfolding enc
    by (subst b64decode_quad) (simp_all add: sextet_bounds[OF n] recomb bytes rest Let_def)
qed

lemma b64_roundtrip_two:
  fixes a b :: byte
  shows "b64decode (b64encode [a, b]) = Some [a, b]"
proof -
  define n where "n = unat a * 65536 + unat b * 256"
  have n: "n < 16777216"
    using unat_byte_less[of a] unat_byte_less[of b] by (simp add: n_def)
  have enc: "b64encode [a, b] =
      [b64_char (n div 262144), b64_char (n div 4096 mod 64), b64_char (n div 64 mod 64), CHR ''='']"
    by (simp add: n_def Let_def)
  have "n div 262144 * 262144 + n div 4096 mod 64 * 4096 + n div 64 mod 64 * 64 + n mod 64 = n"
    by (rule sextets_recombine)
  moreover have "n mod 64 = 0"
    unfolding n_def by (rule mod_64_of_two_bytes)
  ultimately have recomb: "n div 262144 * 262144 + n div 4096 mod 64 * 4096 + n div 64 mod 64 * 64 = n"
    by simp
  have bytes: "n div 65536 = unat a" "n div 256 mod 256 = unat b"
    using bytes_split(1,2)[of "unat b" 0 "unat a"] unat_byte_less[of b] by (simp_all add: n_def)
  show ?thesis
    unfolding enc
    by (subst b64decode_pad1) (simp_all add: sextet_bounds[OF n] recomb bytes Let_def)
qed

lemma b64_roundtrip_one:
  fixes a :: byte
  shows "b64decode (b64encode [a]) = Some [a]"
proof -
  define n where "n = unat a * 65536"
  have n: "n < 16777216"
    using unat_byte_less[of a] by (simp add: n_def)
  have enc: "b64encode [a] =
      [b64_char (n div 262144), b64_char (n div 4096 mod 64), CHR ''='', CHR ''='']"
    by (simp add: n_def Let_def)
  have "n div 262144 * 262144 + n div 4096 mod 64 * 4096 + n div 64 mod 64 * 64 + n mod 64 = n"
    by (rule sextets_recombine)
  moreover have "n mod 64 = 0" "n div 64 mod 64 = 0"
    unfolding n_def by (rule mod_4096_of_one_byte)+
  ultimately have recomb: "n div 262144 * 262144 + n div 4096 mod 64 * 4096 = n"
    by simp
  have bytes: "n div 65536 = unat a"
    by (simp add: n_def)
  show ?thesis
    unfolding enc
    by (subst b64decode_pad2) (simp_all add: sextet_bounds[OF n] recomb bytes Let_def)
qed

lemma b64_roundtrip: "b64decode (b64encode bs) = Some bs"
proof (induction bs rule: b64encode.induct)
  case 1
  show ?case by simp
next
  case (2 a)
  show ?case by (rule b64_roundtrip_one)
next
  case (3 a b)
  show ?case by (rule b64_roundtrip_two)
next
  case (4 a b c rest)
  from 4[OF refl] show ?case by (rule b64_roundtrip_three)
qed

lemma mask_uint8_roundtrip: "map (map (\<lambda>v. v \<noteq> 0)) (mask_uint8 m) = m"
  by (simp add: mask_uint8_def comp_def map_idI)

section \<open>Codec, health and the readiness guard\<close>

text \<open>
  Claim C8. Encoding a boolean mask (true to 255, false to 0, the lossless image format,
  then base64) and decoding the text back gives the mask again, when the image format
  stores the mask's 8-bit image and reads it back unchanged.
\<close>
theorem encode_decode_roundtrip:
  assumes "png_save E (mask_uint8 m) = Inr buffer"
    and "png_load buffer = Some (mask_uint8 m)"
  shows "decode_mask_from_base64 png_load (encode_mask_to_base64 E m) = Some m"
  using assms
  by (simp add: decode_mask_from_base64_def encode_mask_to_base64_def b64_roundtrip
      mask_uint8_roundtrip)

theorem encode_decode_roundtrip_witness:
  "png_save sample_env (mask_uint8 [[True, False]]) = Inr [255, 0] \<and>
   sample_png_load [255, 0] = Some (mask_uint8 [[True, False]]) \<and>
   decode_mask_from_base64 sample_png_load (encode_mask_to_base64 sample_env [[True, False]])
     = Some [[True, False]]"
proof -
  have h1: "png_save sample_env (mask_uint8 [[True, False]]) = Inr [255, 0]"
    by (simp add: sample_env_def mask_uint8_def)
  have h2: "sample_png_load [255, 0] = Some (mask_uint8 [[True, False]])"
    by (simp add: sample_png_load_def mask_uint8_def)
  from encode_decode_roundtrip[of sample_env "[[True, False]]" "[255, 0]" sample_png_load, OF h1 h2]
    h1 h2 show ?thesis
    by simp
qed






lemma run_segmentation_not_loaded:
  assumes "predictor self = None"
  shows "\<exists>e. run_segmentation E self img md pts bxs = (Inl e, [])"
  using assms
  by (simp add: run_segmentation_def segment_everything_def segment_with_points_def
      segment_with_boxes_def)

lemma segment_decoded_not_loaded:
  assumes "predictor self = None"
  shows "\<exists>e. segment_decoded E self img form = (Inl e, [])"
proof (cases "parse_prompt E (points form)")
  case (Inl e)
  then show ?thesis by (simp add: segment_decoded_def)
next
  case pts: (Inr pts)
  show ?thesis
  proof (cases "parse_prompt E (boxes form)")
    case (Inl e)
    then show ?thesis using pts by (simp add: segment_decoded_def)
  next
    case bxs: (Inr bxs)
    from run_segmentation_not_loaded[OF assms] obtain e where
      "run_segmentation E self img (mode form) pts bxs = (Inl e, [])"
      by blast
    then show ?thesis
      using pts bxs by (simp add: segment_decoded_def)
  qed
qed

text \<open>
  Whatever the request, a predictor object without a loaded model gives status 500, never
  503, and the model is not called; without a predictor object the status is 503.
\<close>

lemma segment_image_not_loaded:
  assumes "g = Some self" and "predictor self = None"
  shows "\<exists>detail. segment_image E g image_data form = (Inl (HTTPException 500 detail), [])"
proof -
  have "\<exists>e. (case process_image_data E image_data of
               Inl e \<Rightarrow> (Inl e, [])
             | Inr image_array \<Rightarrow> segment_decoded E self image_array form) = (Inl e, [])"
    using segment_decoded_not_loaded[OF assms(2)]
    by (cases "process_image_data E image_data") auto
  then obtain e where
    "(case process_image_data E image_data of
        Inl e \<Rightarrow> (Inl e, [])
      | Inr image_array \<Rightarrow> segment_decoded E self image_array form) = (Inl e, [])"
    by blast
  then have "segment_image E g image_data form = (Inl (HTTPException 500 (str_exn e)), [])"
    using assms(1) by (simp add: segment_image_def except_500_def)
  then show ?thesis by blast
qed

lemma segment_image_no_predictor:
  "segment_image E None image_data form = (Inl (HTTPException 503 ''SAM 2 model not loaded''), [])"
  by (simp add: segment_image_def)

text \<open>Undecodable bytes give status 500 on every request that passes the 503 guard.\<close>

lemma segment_image_undecodable:
  assumes "g = Some self" and "image_open E image_data = Inl e"
  shows "segment_image E g image_data form =
           (Inl (HTTPException 500 (str_exn (HTTPException 400 ''Invalid image data''))), [])"
  using assms by (simp add: segment_image_def process_image_data_def except_500_def)

text \<open>Run one after the other, a second \<^verbatim>\<open>/load-model\<close> call does not load again.\<close>

lemma load_model_endpoint_already_loaded:
  assumes "model p \<noteq> None"
  shows "load_model_endpoint E (Some p) = ((''success'', ''Model already loaded''), Some p)"
  using assms by (simp add: load_model_endpoint_def)

lemma load_model_endpoint_twice:
  assumes "load_model_endpoint E g = ((''success'', msg), g')"
  shows "load_model_endpoint E g' = ((''success'', ''Model already loaded''), g')"
proof -
  from assms obtain p where g': "g' = Some p" and "model p \<noteq> None"
    by (auto simp: load_model_endpoint_def load_model_def init_predictor_def
        split: option.splits sum.splits if_splits prod.splits)
  then show ?thesis
    by (simp add: load_model_endpoint_already_loaded)
qed

text \<open>
  Claim C4 asks for HTTP 503 whenever the model is not ready. After a load that failed at
  start-up the predictor object exists without a model; \<^verbatim>\<open>POST /segment\<close> then passes
  the 503 guard, the entry point raises \<^verbatim>\<open>RuntimeError("Model not loaded")\<close> without
  calling the model, and the handler answers 500.
\<close>
theorem segment_after_failed_load:
  "segment_image sample_env_without_sam2 unloaded_predictor [1]
     \<lparr>mode = ''everything'', points = None, boxes = None\<rparr>
   = (Inl (HTTPException 500 ''Model not loaded''), [])"
  by (simp add: segment_image_def unloaded_predictor_eq process_image_data_def
      sample_env_without_sam2_def sample_env_def segment_decoded_def parse_prompt_def
      run_segmentation_def segment_everything_def except_500_def)

text \<open>
  Claim C5 asks for HTTP 400 on bytes that are not an image. \<^verbatim>\<open>process_image_data\<close>
  raises \<^verbatim>\<open>HTTPException(400)\<close>, but the handler's \<^verbatim>\<open>except Exception\<close> catches it
  and answers 500, with the 400 only in the detail text. The model is not called.
\<close>
theorem segment_undecodable_image:
  "segment_image sample_env loaded_predictor []
     \<lparr>mode = ''everything'', points = None, boxes = None\<rparr>
   = (Inl (HTTPException 500 ''400: Invalid image data''), [])"
  by (simp add: segment_image_def loaded_predictor_eq process_image_data_def sample_env_def
      except_500_def show_nat.simps digit_char_def)

section \<open>Invalid prompts\<close>

lemma run_segmentation_invalid:
  assumes "md \<noteq> ''everything''"
    and "md = ''points'' \<longrightarrow> \<not> truthy pts"
    and "md = ''boxes'' \<longrightarrow> \<not> truthy bxs"
  shows "run_segmentation E self img md pts bxs =
           (Inl (ValueError (''Invalid segmentation mode: '' @ md)), [])"
  using assms by (auto simp: run_segmentation_def)

lemma except_500_Inl: "except_500 (Inl e, calls) = (Inl (HTTPException 500 (str_exn e)), calls)"
  by (simp add: except_500_def)

lemma except_500_Inr: "except_500 (Inr v, calls) = (Inr v, calls)"
  by (simp add: except_500_def)

lemma segment_decoded_invalid:
  assumes "mode form \<noteq> ''everything''"
    and "mode form = ''points'' \<longrightarrow> parse_prompt E (points form) \<in> {Inr None, Inr (Some [])}"
    and "mode form = ''boxes'' \<longrightarrow> parse_prompt E (boxes form) \<in> {Inr None, Inr (Some [])}"
  shows "\<exists>e. segment_decoded E self img form = (Inl e, [])"
proof (cases "parse_prompt E (points form)")
  case (Inl e)
  then show ?thesis by (simp add: segment_decoded_def)
next
  case pts: (Inr pts)
  show ?thesis
  proof (cases "parse_prompt E (boxes form)")
    case (Inl e)
    then show ?thesis using pts by (simp add: segment_decoded_def)
  next
    case bxs: (Inr bxs)
    have "run_segmentation E self img (mode form) pts bxs =
            (Inl (ValueError (''Invalid segmentation mode: '' @ mode form)), [])"
      using assms pts bxs by (intro run_segmentation_invalid) (auto simp: truthy_def)
    then show ?thesis
      using pts bxs by (simp add: segment_decoded_def)
  qed
qed

lemma segment_decoded_invalid_detail:
  assumes "mode form \<noteq> ''everything''"
    and "mode form = ''points'' \<longrightarrow> parse_prompt E (points form) \<in> {Inr None, Inr (Some [])}"
    and "mode form = ''boxes'' \<longrightarrow> parse_prompt E (boxes form) \<in> {Inr None, Inr (Some [])}"
    and "parse_prompt E (points form) = Inr pts"
    and "parse_prompt E (boxes form) = Inr bxs"
  shows "segment_decoded E self img form =
           (Inl (ValueError (''Invalid segmentation mode: '' @ mode form)), [])"
proof -
  have "run_segmentation E self img (mode form) pts bxs =
          (Inl (ValueError (''Invalid segmentation mode: '' @ mode form)), [])"
    using assms by (intro run_segmentation_invalid) (auto simp: truthy_def)
  then show ?thesis
    using assms(4,5) by (simp add: segment_decoded_def)
qed

text \<open>
  Claim C6, amended. A request whose mode is a non-empty string other than the three modes,
  or whose mode is \<^verbatim>\<open>points\<close> or \<^verbatim>\<open>boxes\<close> with its prompt absent or empty, makes no
  call to the model and fails with HTTP 500 (not 400) on both endpoints, or with 503 when
  there is no predictor object. When the image decodes and both prompt fields parse, the
  detail of the 500 is the router's message "Invalid segmentation mode: " followed by the
  mode.
\<close>
theorem invalid_prompt_fails_with_500:
  assumes "mode form \<noteq> ''everything''"
    and "mode form \<noteq> []"
    and "mode form = ''points'' \<longrightarrow> parse_prompt E (points form) \<in> {Inr None, Inr (Some [])}"
    and "mode form = ''boxes'' \<longrightarrow> parse_prompt E (boxes form) \<in> {Inr None, Inr (Some [])}"
  shows "snd (segment_image E g image_data form) = [] \<and>
         status_code (fst (segment_image E g image_data form)) = (if g = None then 503 else 500) \<and>
         snd (segment_image_url E g image_url form) = [] \<and>
         status_code (fst (segment_image_url E g image_url form)) = (if g = None then 503 else 500) \<and>
         (g \<noteq> None \<and> process_image_data E image_data = Inr img \<and>
          parse_prompt E (points form) = Inr pts \<and> parse_prompt E (boxes form) = Inr bxs \<longrightarrow>
            fst (segment_image E g image_data form) =
              Inl (HTTPException 500 (''Invalid segmentation mode: '' @ mode form))) \<and>
         (g \<noteq> None \<and> requests_get E image_url = Inr content \<and>
          process_image_data E content = Inr img \<and>
          parse_prompt E (points form) = Inr pts \<and> parse_prompt E (boxes form) = Inr bxs \<longrightarrow>
            fst (segment_image_url E g image_url form) =
              Inl (HTTPException 500 (''Invalid segmentation mode: '' @ mode form)))"
proof (cases g)
  case None
  then show ?thesis
    by (simp add: segment_image_def segment_image_url_def)
next
  case (Some self)
  have dec: "\<exists>e. segment_decoded E self i form = (Inl e, [])" for i
    using assms(1,3,4) by (rule segment_decoded_invalid)
  have a: "\<exists>e. (case process_image_data E d of
                  Inl e \<Rightarrow> (Inl e, [])
                | Inr image_array \<Rightarrow> segment_decoded E self image_array form) = (Inl e, [])" for d
    using dec by (cases "process_image_data E d") auto
  have upload: "\<exists>detail. segment_image E g image_data form = (Inl (HTTPException 500 detail), [])"
  proof -
    from a[of image_data] obtain e where
      "(case process_image_data E image_data of
          Inl e \<Rightarrow> (Inl e, [])
        | Inr image_array \<Rightarrow> segment_decoded E self image_array form) = (Inl e, [])"
      by blast
    then have "segment_image E g image_data form = (Inl (HTTPException 500 (str_exn e)), [])"
      using Some by (simp add: segment_image_def except_500_Inl)
    then show ?thesis by blast
  qed
  have url: "\<exists>detail. segment_image_url E g image_url form = (Inl (HTTPException 500 detail), [])"
  proof -
    have "\<exists>e. (case requests_get E image_url of
               Inl e \<Rightarrow> (Inl e, [])
             | Inr content \<Rightarrow>
                 (case process_image_data E content of
                    Inl e \<Rightarrow> (Inl e, [])
                  | Inr image_array \<Rightarrow> segment_decoded E self image_array form)) = (Inl e, [])"
      using a by (cases "requests_get E image_url") auto
    then obtain e where
      "(case requests_get E image_url of
               Inl e \<Rightarrow> (Inl e, [])
             | Inr content \<Rightarrow>
                 (case process_image_data E content of
                    Inl e \<Rightarrow> (Inl e, [])
                  | Inr image_array \<Rightarrow> segment_decoded E self image_array form)) = (Inl e, [])"
      by blast
    then have "segment_image_url E g image_url form = (Inl (HTTPException 500 (str_exn e)), [])"
      using Some by (simp add: segment_image_url_def except_500_Inl)
    then show ?thesis by blast
  qed
  have upload_detail: "fst (segment_image E g image_data form) =
      Inl (HTTPException 500 (''Invalid segmentation mode: '' @ mode form))"
    if "process_image_data E image_data = Inr img"
      "parse_prompt E (points form) = Inr pts" "parse_prompt E (boxes form) = Inr bxs"
    using that Some segment_decoded_invalid_detail[OF assms(1,3,4) that(2,3), of self img]
    by (simp add: segment_image_def except_500_Inl)
  have url_detail: "fst (segment_image_url E g image_url form) =
      Inl (HTTPException 500 (''Invalid segmentation mode: '' @ mode form))"
    if "requests_get E image_url = Inr content" "process_image_data E content = Inr img"
      "parse_prompt E (points form) = Inr pts" "parse_prompt E (boxes form) = Inr bxs"
    using that Some segment_decoded_invalid_detail[OF assms(1,3,4) that(3,4), of self img]
    by (simp add: segment_image_url_def except_500_Inl)
  from upload url upload_detail url_detail Some show ?thesis
    by auto
qed

theorem invalid_prompt_fails_with_500_witness:
  "''foo'' \<noteq> ''everything'' \<and> ''foo'' \<noteq> ''points'' \<and> ''foo'' \<noteq> ''boxes'' \<and> ''foo'' \<noteq> [] \<and>
   loaded_predictor \<noteq> None \<and>
   process_image_data sample_env [1] = Inr sample_image \<and>
   parse_prompt sample_env None = Inr None \<and>
   parse_prompt sample_env (Some ''[]'') = Inr (Some []) \<and>
   segment_image sample_env loaded_predictor [1] \<lparr>mode = ''foo'', points = None, boxes = None\<rparr>
     = (Inl (HTTPException 500 ''Invalid segmentation mode: foo''), []) \<and>
   segment_image sample_env loaded_predictor [1]
       \<lparr>mode = ''points'', points = Some ''[]'', boxes = None\<rparr>
     = (Inl (HTTPException 500 ''Invalid segmentation mode: points''), []) \<and>
   status_code (fst (segment_image sample_env loaded_predictor [1]
       \<lparr>mode = ''points'', points = Some ''[]'', boxes = None\<rparr>)) = 500"
proof -
  let ?foo = "\<lparr>mode = ''foo'', points = None, boxes = None\<rparr>"
  let ?pts = "\<lparr>mode = ''points'', points = Some ''[]'', boxes = None\<rparr>"
  have loaded: "loaded_predictor \<noteq> None"
    by (simp add: loaded_predictor_eq)
  have img: "process_image_data sample_env [1] = Inr sample_image"
    by (simp add: process_image_data_def sample_env_def)
  have absent: "parse_prompt sample_env None = Inr None"
    by (simp add: parse_prompt_def)
  have parsed: "parse_prompt sample_env (Some ''[]'') = Inr (Some [])"
    by (simp add: parse_prompt_def sample_env_def)
  have f1: "mode ?foo \<noteq> ''everything''" by simp
  have f0: "mode ?foo \<noteq> []" by simp
  have f2: "mode ?foo = ''points'' \<longrightarrow>
            parse_prompt sample_env (points ?foo) \<in> {Inr None, Inr (Some [])}" by simp
  have f3: "mode ?foo = ''boxes'' \<longrightarrow>
            parse_prompt sample_env (boxes ?foo) \<in> {Inr None, Inr (Some [])}" by simp
  have p1: "mode ?pts \<noteq> ''everything''" by simp
  have p0: "mode ?pts \<noteq> []" by simp
  have p2: "mode ?pts = ''points'' \<longrightarrow>
            parse_prompt sample_env (points ?pts) \<in> {Inr None, Inr (Some [])}"
    using parsed by simp
  have p3: "mode ?pts = ''boxes'' \<longrightarrow>
            parse_prompt sample_env (boxes ?pts) \<in> {Inr None, Inr (Some [])}" by simp
  note tf = invalid_prompt_fails_with_500[OF f1 f0 f2 f3, of loaded_predictor "[1]" "[]"
      sample_image None None "[]"]
  note tp = invalid_prompt_fails_with_500[OF p1 p0 p2 p3, of loaded_predictor "[1]" "[]"
      sample_image "Some []" None "[]"]
  have foo: "segment_image sample_env loaded_predictor [1] ?foo
     = (Inl (HTTPException 500 ''Invalid segmentation mode: foo''), [])"
    using tf loaded img absent by (simp add: prod_eq_iff)
  have pts: "segment_image sample_env loaded_predictor [1] ?pts
     = (Inl (HTTPException 500 ''Invalid segmentation mode: points''), [])"
    using tp loaded img absent parsed by (simp add: prod_eq_iff)
  have st: "status_code (fst (segment_image sample_env loaded_predictor [1] ?pts)) = 500"
    using tp loaded by simp
  from loaded img absent parsed foo pts st show ?thesis
    by simp
qed

text \<open>The claim as stated fails: an unrecognised mode gives status 500, not 400.\<close>
theorem invalid_mode_not_400:
  "segment_image sample_env loaded_predictor [1] \<lparr>mode = ''foo'', points = None, boxes = None\<rparr>
   = (Inl (HTTPException 500 ''Invalid segmentation mode: foo''), [])"
  by (simp add: segment_image_def loaded_predictor_eq process_image_data_def sample_env_def
      segment_decoded_def parse_prompt_def run_segmentation_def except_500_def)

section \<open>Boxes mode and the response entries\<close>

lemma boxes_loop_single_masks:
  assumes "list_all (\<lambda>b. box_mask E img b \<noteq> None) bxs"
  shows "\<exists>ss. boxes_loop E img bxs all_masks all_scores =
           (Inr \<lparr>masks = all_masks @ map (\<lambda>b. the (box_mask E img b)) bxs, scores = ss\<rparr>,
            map (\<lambda>b. Predict (BoxPrompt b) False) bxs)"
  using assms
proof (induction bxs arbitrary: all_masks all_scores)
  case Nil
  then show ?case by simp
next
  case (Cons box rest)
  from Cons.prems have "box_mask E img box \<noteq> None"
    by simp
  then obtain m ss where one: "predict E img (BoxPrompt box) False = Inr ([m], ss)"
    and bm: "box_mask E img box = Some m"
    by (auto simp: box_mask_def split: sum.splits prod.splits list.splits)
  from Cons.prems have "list_all (\<lambda>b. box_mask E img b \<noteq> None) rest"
    by simp
  from Cons.IH[OF this, of "all_masks @ [m]" "all_scores @ ss"]
  obtain ss' where "boxes_loop E img rest (all_masks @ [m]) (all_scores @ ss) =
      (Inr \<lparr>masks = (all_masks @ [m]) @ map (\<lambda>b. the (box_mask E img b)) rest, scores = ss'\<rparr>,
       map (\<lambda>b. Predict (BoxPrompt b) False) rest)"
    by blast
  then show ?case
    using one bm by simp
qed

lemma segment_with_boxes_single_masks:
  assumes "predictor self \<noteq> None"
    and "set_image E img = Inr u"
    and "list_all (\<lambda>b. box_mask E img b \<noteq> None) bxs"
  shows "\<exists>ss. segment_with_boxes E self img bxs =
           (Inr \<lparr>masks = map (\<lambda>b. the (box_mask E img b)) bxs, scores = ss\<rparr>,
            SetImage img # map (\<lambda>b. Predict (BoxPrompt b) False) bxs)"
proof -
  from boxes_loop_single_masks[OF assms(3), of "[]" "[]"]
  obtain ss where "boxes_loop E img bxs [] [] =
      (Inr \<lparr>masks = map (\<lambda>b. the (box_mask E img b)) bxs, scores = ss\<rparr>,
       map (\<lambda>b. Predict (BoxPrompt b) False) bxs)"
    by auto
  then show ?thesis
    using assms(1,2) by (simp add: segment_with_boxes_def)
qed

lemma length_encode_results: "length (encode_results E ms ss) = length ms"
  by (simp add: encode_results_def)

lemma encode_results_nth:
  "i < length ms \<Longrightarrow>
   encode_results E ms ss ! i =
     \<lparr>mask_id = i, mask_b64 = encode_mask_to_base64 E (ms ! i),
      score = (if i < length ss then ss ! i else 0), area = np_sum (ms ! i)\<rparr>"
  by (simp add: encode_results_def nth_enumerate_eq)

lemma encode_results_ids: "map mask_id (encode_results E ms ss) = [0..<length ms]"
  by (rule nth_equalityI) (simp_all add: length_encode_results encode_results_nth)

lemma encode_results_payloads:
  "map mask_b64 (encode_results E ms ss) = map (encode_mask_to_base64 E) ms"
  by (rule nth_equalityI) (simp_all add: length_encode_results encode_results_nth)

lemma segment_decoded_ok:
  assumes "parse_prompt E (points form) = Inr pts"
    and "parse_prompt E (boxes form) = Inr bxs"
    and "run_segmentation E self img (mode form) pts bxs = (Inr result, calls)"
  shows "segment_decoded E self img form =
           (Inr \<lparr>success = True, resp_mode = mode form,
                 num_masks = length (masks result),
                 resp_masks = encode_results E (masks result) (scores result),
                 image_shape = shape2 img\<rparr>, calls)"
  using assms by (simp add: segment_decoded_def length_encode_results Let_def)

text \<open>
  Claim C3, amended. Take a boxes-mode request with at least one box, on a loaded model,
  whose image decodes, whose points field is absent or parses, and whose boxes field parses;
  let the model accept the image and answer each single-mask box query with exactly one mask.
  Then the model is given the image once and queried once per box, in order, with
  multi-mask output off, and the response has exactly one mask per box, numbered and
  encoded in the order of the boxes.
\<close>
theorem boxes_request_one_mask_per_box:
  assumes "g = Some self" and "predictor self \<noteq> None"
    and "process_image_data E image_data = Inr img"
    and "mode form = ''boxes''"
    and "parse_prompt E (points form) = Inr pts"
    and "parse_prompt E (boxes form) = Inr (Some bxs)"
    and "bxs \<noteq> []"
    and "set_image E img = Inr u"
    and "list_all (\<lambda>b. box_mask E img b \<noteq> None) bxs"
  shows "\<exists>resp. segment_image E g image_data form =
             (Inr resp, SetImage img # map (\<lambda>b. Predict (BoxPrompt b) False) bxs) \<and>
           num_masks resp = length bxs \<and>
           length (resp_masks resp) = length bxs \<and>
           map mask_id (resp_masks resp) = [0..<length bxs] \<and>
           map mask_b64 (resp_masks resp) =
             map (\<lambda>b. encode_mask_to_base64 E (the (box_mask E img b))) bxs"
proof -
  from segment_with_boxes_single_masks[OF assms(2,8,9)]
  obtain ss where boxes: "segment_with_boxes E self img bxs =
      (Inr \<lparr>masks = map (\<lambda>b. the (box_mask E img b)) bxs, scores = ss\<rparr>,
       SetImage img # map (\<lambda>b. Predict (BoxPrompt b) False) bxs)"
    by blast
  have "run_segmentation E self img (mode form) pts (Some bxs) =
          segment_with_boxes E self img bxs"
    using assms(4,7) by (simp add: run_segmentation_def truthy_def)
  with boxes have run: "run_segmentation E self img (mode form) pts (Some bxs) =
      (Inr \<lparr>masks = map (\<lambda>b. the (box_mask E img b)) bxs, scores = ss\<rparr>,
       SetImage img # map (\<lambda>b. Predict (BoxPrompt b) False) bxs)"
    by simp
  have "segment_image E g image_data form =
      (Inr \<lparr>success = True, resp_mode = mode form,
            num_masks = length bxs,
            resp_masks = encode_results E (map (\<lambda>b. the (box_mask E img b)) bxs) ss,
            image_shape = shape2 img\<rparr>,
       SetImage img # map (\<lambda>b. Predict (BoxPrompt b) False) bxs)"
    using assms(1,3) segment_decoded_ok[OF assms(5,6) run]
    by (simp add: segment_image_def except_500_Inr)
  then show ?thesis
    by (simp add: length_encode_results encode_results_ids encode_results_payloads comp_def)
qed

theorem boxes_request_one_mask_per_box_witness:
  "loaded_predictor = Some (the loaded_predictor) \<and>
   predictor (the loaded_predictor) \<noteq> None \<and>
   process_image_data sample_env [1] = Inr sample_image \<and>
   parse_prompt sample_env None = Inr None \<and>
   parse_prompt sample_env (Some ''[[0,0,1,1],[1,0,2,1]]'') = Inr (Some [[0, 0, 1, 1], [1, 0, 2, 1]]) \<and>
   set_image sample_env sample_image = Inr () \<and>
   list_all (\<lambda>b. box_mask sample_env sample_image b \<noteq> None) [[0, 0, 1, 1], [1, 0, 2, 1]] \<and>
   (\<exists>resp. segment_image sample_env loaded_predictor [1]
             \<lparr>mode = ''boxes'', points = None, boxes = Some ''[[0,0,1,1],[1,0,2,1]]''\<rparr> =
             (Inr resp, [SetImage sample_image, Predict (BoxPrompt [0, 0, 1, 1]) False,
                         Predict (BoxPrompt [1, 0, 2, 1]) False]) \<and>
           num_masks resp = 2 \<and>
           map mask_id (resp_masks resp) = [0, 1])"
proof -
  let ?form = "\<lparr>mode = ''boxes'', points = None, boxes = Some ''[[0,0,1,1],[1,0,2,1]]''\<rparr>"
  let ?bxs = "[[0, 0, 1, 1], [1, 0, 2, 1]] :: int list list"
  have h1: "loaded_predictor = Some (the loaded_predictor)"
    by (simp add: loaded_predictor_eq)
  have h2: "predictor (the loaded_predictor) \<noteq> None"
    by (simp add: loaded_predictor_eq)
  have h3: "process_image_data sample_env [1] = Inr sample_image"
    by (simp add: process_image_data_def sample_env_def)
  have h4: "mode ?form = ''boxes''"
    by simp
  have h5: "parse_prompt sample_env None = Inr None"
    by (simp add: parse_prompt_def)
  have h6: "parse_prompt sample_env (Some ''[[0,0,1,1],[1,0,2,1]]'') = Inr (Some ?bxs)"
    by (simp add: parse_prompt_def sample_env_def)
  have h7: "?bxs \<noteq> []"
    by simp
  have h8: "set_image sample_env sample_image = Inr ()"
    by (simp add: sample_env_def)
  have h9: "list_all (\<lambda>b. box_mask sample_env sample_image b \<noteq> None) ?bxs"
    by (simp add: box_mask_def sample_env_def)
  have "\<exists>resp. segment_image sample_env loaded_predictor [1] ?form =
             (Inr resp, [SetImage sample_image, Predict (BoxPrompt [0, 0, 1, 1]) False,
                         Predict (BoxPrompt [1, 0, 2, 1]) False]) \<and>
           num_masks resp = 2 \<and>
           map mask_id (resp_masks resp) = [0, 1]"
    using boxes_request_one_mask_per_box[of loaded_predictor "the loaded_predictor" sample_env
        "[1]" sample_image ?form None ?bxs "()", OF h1 h2 h3 h4 _ _ h7 h8 h9] h5 h6
    by (auto simp: upt_rec)
  with h1 h2 h3 h5 h6 h8 h9 show ?thesis
    by blast
qed

text \<open>
  The claim as stated fails for zero boxes: a boxes-mode request with the empty list is
  rejected by the router's guard, and the response is an error, not an empty mask list.
\<close>
theorem boxes_request_without_boxes:
  "segment_image sample_env loaded_predictor [1]
     \<lparr>mode = ''boxes'', points = None, boxes = Some ''[]''\<rparr>
   = (Inl (HTTPException 500 ''Invalid segmentation mode: boxes''), [])"
  by (simp add: segment_image_def loaded_predictor_eq process_image_data_def sample_env_def
      segment_decoded_def parse_prompt_def run_segmentation_def truthy_def except_500_def)

text \<open>
  Claim C10. When the model returns more masks than scores, the response of
  \<^verbatim>\<open>/segment\<close> and of \<^verbatim>\<open>/segment-url\<close> is a success, has one entry per mask, and the
  entry at an index without a score has score 0 with its id, payload and area intact.
\<close>
theorem missing_score_defaults_to_zero:
  assumes "g = Some self"
    and "parse_prompt E (points form) = Inr pts"
    and "parse_prompt E (boxes form) = Inr bxs"
    and "run_segmentation E self img (mode form) pts bxs = (Inr result, calls)"
    and "length (scores result) \<le> i"
    and "i < length (masks result)"
  shows "(process_image_data E image_data = Inr img \<longrightarrow>
            (\<exists>resp. segment_image E g image_data form = (Inr resp, calls) \<and>
                    status_code (fst (segment_image E g image_data form)) = 200 \<and>
                    success resp \<and>
                    num_masks resp = length (masks result) \<and>
                    resp_masks resp ! i =
                      \<lparr>mask_id = i, mask_b64 = encode_mask_to_base64 E (masks result ! i),
                       score = 0, area = np_sum (masks result ! i)\<rparr>)) \<and>
         (requests_get E image_url = Inr content \<and> process_image_data E content = Inr img \<longrightarrow>
            (\<exists>resp. segment_image_url E g image_url form = (Inr resp, calls) \<and>
                    status_code (fst (segment_image_url E g image_url form)) = 200 \<and>
                    success resp \<and>
                    num_masks resp = length (masks result) \<and>
                    resp_masks resp ! i =
                      \<lparr>mask_id = i, mask_b64 = encode_mask_to_base64 E (masks result ! i),
                       score = 0, area = np_sum (masks result ! i)\<rparr>))"
proof -
  note dec = segment_decoded_ok[OF assms(2,3,4)]
  have entry: "encode_results E (masks result) (scores result) ! i =
      \<lparr>mask_id = i, mask_b64 = encode_mask_to_base64 E (masks result ! i),
       score = 0, area = np_sum (masks result ! i)\<rparr>"
    using assms(5,6) by (simp add: encode_results_nth)
  have upload: "segment_image E g image_data form =
      (Inr \<lparr>success = True, resp_mode = mode form, num_masks = length (masks result),
            resp_masks = encode_results E (masks result) (scores result),
            image_shape = shape2 img\<rparr>, calls)"
    if "process_image_data E image_data = Inr img"
    using that assms(1) dec by (simp add: segment_image_def except_500_Inr)
  have url: "segment_image_url E g image_url form =
      (Inr \<lparr>success = True, resp_mode = mode form, num_masks = length (masks result),
            resp_masks = encode_results E (masks result) (scores result),
            image_shape = shape2 img\<rparr>, calls)"
    if "requests_get E image_url = Inr content" "process_image_data E content = Inr img"
    using that assms(1) dec by (simp add: segment_image_url_def except_500_Inr)
  show ?thesis
    using upload url entry by auto
qed

theorem missing_score_defaults_to_zero_witness:
  "loaded_predictor = Some (the loaded_predictor) \<and>
   parse_prompt sample_env (Some ''[[1,0]]'') = Inr (Some [[1, 0]]) \<and>
   parse_prompt sample_env None = Inr None \<and>
   run_segmentation sample_env (the loaded_predictor) sample_image ''points'' (Some [[1, 0]]) None
     = (Inr \<lparr>masks = [[[True, False]], [[True, True]]], scores = [9 / 10]\<rparr>,
        [SetImage sample_image, Predict (PointPrompt [[1, 0]]) True]) \<and>
   process_image_data sample_env [1] = Inr sample_image \<and>
   requests_get sample_env ''http://example.org/a.png'' = Inr [1] \<and>
   (\<exists>resp. segment_image sample_env loaded_predictor [1]
             \<lparr>mode = ''points'', points = Some ''[[1,0]]'', boxes = None\<rparr>
             = (Inr resp, [SetImage sample_image, Predict (PointPrompt [[1, 0]]) True]) \<and>
           num_masks resp = 2 \<and>
           resp_masks resp ! 1 =
             \<lparr>mask_id = 1, mask_b64 = encode_mask_to_base64 sample_env [[True, True]],
              score = 0, area = 2\<rparr>) \<and>
   (\<exists>resp. segment_image_url sample_env loaded_predictor ''http://example.org/a.png''
             \<lparr>mode = ''points'', points = Some ''[[1,0]]'', boxes = None\<rparr>
             = (Inr resp, [SetImage sample_image, Predict (PointPrompt [[1, 0]]) True]) \<and>
           num_masks resp = 2 \<and>
           resp_masks resp ! 1 =
             \<lparr>mask_id = 1, mask_b64 = encode_mask_to_base64 sample_env [[True, True]],
              score = 0, area = 2\<rparr>)"
proof -
  let ?form = "\<lparr>mode = ''points'', points = Some ''[[1,0]]'', boxes = None\<rparr>"
  let ?result = "\<lparr>masks = [[[True, False]], [[True, True]]], scores = [9 / 10]\<rparr>"
  let ?calls = "[SetImage sample_image, Predict (PointPrompt [[1, 0]]) True]"
  have h1: "loaded_predictor = Some (the loaded_predictor)"
    by (simp add: loaded_predictor_eq)
  have h2: "parse_prompt sample_env (Some ''[[1,0]]'') = Inr (Some [[1, 0]])"
    by (simp add: parse_prompt_def sample_env_def)
  have h3: "parse_prompt sample_env None = Inr None"
    by (simp add: parse_prompt_def)
  have h4: "run_segmentation sample_env (the loaded_predictor) sample_image ''points''
              (Some [[1, 0]]) None = (Inr ?result, ?calls)"
    by (simp add: run_segmentation_def truthy_def segment_with_points_def loaded_predictor_eq
        sample_env_def)
  have h5: "length (scores ?result) \<le> 1"
    by simp
  have h6: "1 < length (masks ?result)"
    by simp
  have h7: "process_image_data sample_env [1] = Inr sample_image"
    by (simp add: process_image_data_def sample_env_def)
  have h8: "requests_get sample_env ''http://example.org/a.png'' = Inr [1]"
    by (simp add: sample_env_def)
  note t = missing_score_defaults_to_zero[of loaded_predictor "the loaded_predictor" sample_env
      ?form "Some [[1, 0]]" None sample_image ?result ?calls 1 "[1]"
      "''http://example.org/a.png''" "[1]", OF h1 _ _ _ h5 h6]
  have t': "(\<exists>resp. segment_image sample_env loaded_predictor [1] ?form = (Inr resp, ?calls) \<and>
           num_masks resp = 2 \<and>
           resp_masks resp ! 1 =
             \<lparr>mask_id = 1, mask_b64 = encode_mask_to_base64 sample_env [[True, True]],
              score = 0, area = 2\<rparr>) \<and>
      (\<exists>resp. segment_image_url sample_env loaded_predictor ''http://example.org/a.png'' ?form
             = (Inr resp, ?calls) \<and>
           num_masks resp = 2 \<and>
           resp_masks resp ! 1 =
             \<lparr>mask_id = 1, mask_b64 = encode_mask_to_base64 sample_env [[True, True]],
              score = 0, area = 2\<rparr>)"
    using t h2 h3 h4 h7 h8 by (auto simp: np_sum_def)
  with h1 h2 h3 h4 h7 h8 show ?thesis
    by blast
qed

section \<open>Concurrent loads\<close>

text \<open>Run alone, the two steps are the endpoint.\<close>

lemma load_alone_is_endpoint:
  "load_alone E g =
     (case load_model_endpoint E g of (body, g') \<Rightarrow> (Returned body, g'))"
  by (auto simp: load_alone_def load_begin_def load_finish_def load_model_endpoint_def
      load_model_def split: option.splits sum.splits prod.splits)






end
